theory Spec2Isabelle
  imports Main "HOL-Library.Sublist"
begin

section \<open>Go library functions called by \<^verbatim>\<open>mdb/shards.go\<close>\<close>

text \<open>
  Go strings are byte sequences; they are modelled as \<^typ>\<open>string\<close> (a list of
  \<^typ>\<open>char\<close>, one per byte). Go's \<^verbatim>\<open>int\<close> results of \<^verbatim>\<open>strings.Index\<close> are
  modelled as \<^typ>\<open>int\<close>, so that the "not found" value \<open>-1\<close> is a value of the
  model. A slice expression \<^verbatim>\<open>s[:i]\<close> is \<^term>\<open>take (nat i) s\<close> and \<^verbatim>\<open>s[i:]\<close> is
  \<^term>\<open>drop (nat i) s\<close> where the source guards \<^verbatim>\<open>0 \<le> i \<le> len(s)\<close>; where it
  does not (the two \<^verbatim>\<open>shard.Host[:idx]\<close>), the run-time panic is a branch of
  the model.
\<close>

text \<open>\<^verbatim>\<open>strings.HasPrefix(s, prefix)\<close>.\<close>

definition HasPrefix :: "string \<Rightarrow> string \<Rightarrow> bool" where
  "HasPrefix s p = prefix p s"

text \<open>\<^verbatim>\<open>strings.Index(s, substr)\<close>: the index of the first instance of \<open>substr\<close>
  in \<open>s\<close>, or \<open>-1\<close>.\<close>

fun Index :: "string \<Rightarrow> string \<Rightarrow> int" where
  "Index [] sub = (if sub = [] then 0 else - 1)"
| "Index (c # cs) sub =
     (if prefix sub (c # cs) then 0
      else (let i = Index cs sub in if i < 0 then - 1 else i + 1))"

text \<open>\<^verbatim>\<open>strings.Contains(s, substr)\<close> is \<^verbatim>\<open>Index(s, substr) >= 0\<close>.\<close>

definition Contains :: "string \<Rightarrow> string \<Rightarrow> bool" where
  "Contains s sub = (0 \<le> Index s sub)"

lemma Index_ge: "- 1 \<le> Index s sub"
  by (induction s) (auto simp: Let_def)

lemma Index_bound: "0 \<le> Index s sub \<Longrightarrow> nat (Index s sub) + length sub \<le> length s"
proof (induction s)
  case Nil
  then show ?case by (simp split: if_splits)
next
  case (Cons c cs)
  show ?case
  proof (cases "prefix sub (c # cs)")
    case True
    then show ?thesis using prefix_length_le [of sub "c # cs"] by simp
  next
    case False
    with Cons.prems have nn: "0 \<le> Index cs sub"
      by (simp add: Let_def split: if_splits)
    with False have "Index (c # cs) sub = Index cs sub + 1"
      by (simp add: Let_def)
    with Cons.IH [OF nn] nn show ?thesis by simp
  qed
qed

text \<open>\<^verbatim>\<open>strings.Split(s, sep)\<close>. All call sites pass a one-byte separator; for
  an empty separator Go explodes the string into its characters.\<close>

function Split :: "string \<Rightarrow> string \<Rightarrow> string list" where
  "Split s sep =
     (if sep = [] then map (\<lambda>c. [c]) s
      else if Index s sep < 0 then [s]
      else take (nat (Index s sep)) s # Split (drop (nat (Index s sep) + length sep) s) sep)"
  by pat_completeness auto
termination
proof (relation "measure (\<lambda>(s, sep). length s)")
  show "wf (measure (\<lambda>(s, sep). length s))" by simp
next
  fix s sep :: string
  assume ne: "sep \<noteq> []" and found: "\<not> Index s sep < 0"
  from found have "nat (Index s sep) + length sep \<le> length s"
    by (intro Index_bound) simp
  moreover from ne have "0 < length sep" by simp
  ultimately have "length s - (nat (Index s sep) + length sep) < length s" by arith
  then show "((drop (nat (Index s sep) + length sep) s, sep), (s, sep))
      \<in> measure (\<lambda>(s, sep). length s)"
    by simp
qed

declare Split.simps [simp del]

text \<open>\<^verbatim>\<open>strings.Join(elems, sep)\<close>.\<close>

fun Join :: "string list \<Rightarrow> string \<Rightarrow> string" where
  "Join [] sep = []"
| "Join [x] sep = x"
| "Join (x # y # ys) sep = x @ sep @ Join (y # ys) sep"

text \<open>
  \<^verbatim>\<open>strings.NewReplacer(old1, new1, ...).Replace(s)\<close>: the string is scanned from
  left to right; at each position the first pair, in argument order, whose old string
  matches there is replaced, and scanning continues behind the match. Every replacer
  of the source has non-empty old strings.
\<close>

definition matchAt :: "(string \<times> string) list \<Rightarrow> string \<Rightarrow> (string \<times> string) option" where
  "matchAt pairs s = find (\<lambda>(old, new). old \<noteq> [] \<and> prefix old s) pairs"

function Replace :: "(string \<times> string) list \<Rightarrow> string \<Rightarrow> string" where
  "Replace pairs [] = []"
| "Replace pairs (c # cs) =
     (case matchAt pairs (c # cs) of
        Some (old, new) \<Rightarrow> new @ Replace pairs (drop (length old) (c # cs))
      | None \<Rightarrow> c # Replace pairs cs)"
  by pat_completeness auto
termination
proof (relation "measure (\<lambda>(pairs, s). length s)")
  show "wf (measure (\<lambda>(pairs, s). length s))" by simp
next
  fix pairs :: "(string \<times> string) list" and c :: char and cs :: string
    and x2 :: "string \<times> string" and old new :: string
  assume m: "matchAt pairs (c # cs) = Some x2" and x2: "(old, new) = x2"
  from m x2 have "old \<noteq> []"
    by (auto simp: matchAt_def find_Some_iff)
  then show "((pairs, drop (length old) (c # cs)), (pairs, c # cs))
      \<in> measure (\<lambda>(pairs, s). length s)"
    by (cases old) auto
next
  fix pairs :: "(string \<times> string) list" and c :: char and cs :: string
  show "((pairs, cs), (pairs, c # cs)) \<in> measure (\<lambda>(pairs, s). length s)" by simp
qed

text \<open>
  \<^verbatim>\<open>url.QueryEscape(s)\<close>: letters, digits and \<^verbatim>\<open>- _ . ~\<close> are kept, a space
  becomes \<^verbatim>\<open>+\<close>, every other byte becomes \<^verbatim>\<open>%XX\<close> in upper-case hexadecimal.
\<close>

definition unreserved :: "char \<Rightarrow> bool" where
  "unreserved c =
     (c \<in> set ''ABCDEFGHIJKLMNOPQRSTUVWXYZabcdefghijklmnopqrstuvwxyz0123456789-_.~'')"

definition upperhex :: "nat \<Rightarrow> char" where
  "upperhex n = ''0123456789ABCDEF'' ! (n mod 16)"

fun QueryEscape :: "string \<Rightarrow> string" where
  "QueryEscape [] = []"
| "QueryEscape (c # cs) =
     (if unreserved c then c # QueryEscape cs
      else if c = CHR '' '' then CHR ''+'' # QueryEscape cs
      else CHR ''%'' # upperhex (of_char c div 16) # upperhex (of_char c mod 16)
             # QueryEscape cs)"

text \<open>\<^verbatim>\<open>fmt.Sprintf("%v", n)\<close> for an \<^verbatim>\<open>int\<close>: the decimal numeral, with a
  minus sign for a negative number.\<close>

function decimal :: "nat \<Rightarrow> string" where
  "decimal n =
     (if n < 10 then [''0123456789'' ! n]
      else decimal (n div 10) @ [''0123456789'' ! (n mod 10)])"
  by pat_completeness auto
termination
  by (relation "measure (\<lambda>n. n)") auto

declare decimal.simps [simp del]

definition Sprint_int :: "int \<Rightarrow> string" where
  "Sprint_int i = (if i < 0 then CHR ''-'' # decimal (nat (- i)) else decimal (nat i))"

section \<open>Data model\<close>

text \<open>
  \<^verbatim>\<open>connstring.ConnString\<close> of the MongoDB driver, restricted to the fields that
  \<^verbatim>\<open>mdb/shards.go\<close> reads. \<open>Original\<close> is the connection string as the user gave it;
  the driver's \<^verbatim>\<open>String()\<close> method returns it. A read-preference tag set is a Go
  \<^verbatim>\<open>map[string]string\<close>; it is modelled as the list of its entries in the order in
  which a \<^verbatim>\<open>range\<close> loop visits them, an order that the Go run time chooses anew
  for each loop.
\<close>

record ConnString =
  Original :: string
  Hosts :: "string list"
  Username :: string
  Password :: string
  Database :: string
  AuthSource :: string
  SSLSet :: bool
  SSLCaFileSet :: bool
  SSLCaFile :: string
  SSLClientCertificateKeyFileSet :: bool
  SSLClientCertificateKeyFile :: string
  SSLInsecureSet :: bool
  ReadPreference :: string
  ReadPreferenceTagSets :: "(string \<times> string) list list"
  WNumberSet :: bool
  WNumber :: int
  WString :: string
  RetryReadsSet :: bool
  RetryWritesSet :: bool

definition String :: "ConnString \<Rightarrow> string" where
  "String connString = Original connString"

text \<open>The \<^verbatim>\<open>Shard\<close> struct; the element type of \<open>Servers\<close> (\<^verbatim>\<open>ClusterStats\<close>)
  is a parameter, no function below reads the field.\<close>

record 'stats Shard =
  ID :: string
  Host :: string
  State :: int
  Servers :: "'stats list"
  Tags :: "string list"

text \<open>A Go \<^verbatim>\<open>error\<close> value is modelled by its message, \<^verbatim>\<open>nil\<close> by
  \<^term>\<open>None\<close>; a run-time panic is the left summand of the result.\<close>

type_synonym go_error = string

datatype panic = SliceBoundsOutOfRange

type_synonym uri_result = "panic + (string list \<times> go_error option)"

section \<open>\<^verbatim>\<open>GetQueryParams\<close>\<close>

text \<open>The body of the inner loop over one tag set entry: the state is the string built
  so far and the counter \<open>cnt\<close>.\<close>

definition tagEntry :: "string \<times> string \<Rightarrow> string \<times> nat \<Rightarrow> string \<times> nat" where
  "tagEntry kv st =
     (case (kv, st) of ((k, v), (ruri, cnt)) \<Rightarrow>
        (ruri @ k @ '':'' @ v @ (if cnt > 0 then '','' else []), cnt + 1))"

definition tagSets :: "(string \<times> string) list list \<Rightarrow> string \<times> nat \<Rightarrow> string \<times> nat" where
  "tagSets sets st = fold (\<lambda>amap. fold tagEntry amap) sets st"

definition GetQueryParams :: "ConnString \<Rightarrow> bool \<Rightarrow> string" where
  "GetQueryParams connString isConnectDirect =
     (let ruri = [];
          ruri = (if SSLSet connString then ruri @ ''&tls=true'' else ruri);
          ruri = (if SSLCaFileSet connString
                  then ruri @ ''&tlsCAFile='' @ SSLCaFile connString else ruri);
          ruri = (if SSLClientCertificateKeyFileSet connString
                  then ruri @ ''&tlsCertificateKeyFile='' @ SSLClientCertificateKeyFile connString
                  else ruri);
          ruri = (if SSLInsecureSet connString then ruri @ ''&tlsInsecure=true'' else ruri);
          ruri = (if ReadPreference connString \<noteq> [] \<and> \<not> isConnectDirect
                  then ruri @ ''&readPreference='' @ ReadPreference connString else ruri);
          ruri = (if length (ReadPreferenceTagSets connString) > 0 \<and> \<not> isConnectDirect
                  then fst (tagSets (ReadPreferenceTagSets connString)
                              (ruri @ ''&readPreferenceTags='', 0))
                  else ruri);
          ruri = (if WNumberSet connString then ruri @ ''&w='' @ Sprint_int (WNumber connString)
                  else if WString connString \<noteq> [] then ruri @ ''&w='' @ WString connString
                  else ruri);
          ruri = (if RetryReadsSet connString then ruri @ ''&retryReads=true'' else ruri);
          ruri = (if RetryWritesSet connString then ruri @ ''&retryWrites=true'' else ruri)
      in ruri)"

section \<open>\<^verbatim>\<open>GetAllShardURIs\<close>\<close>

text \<open>The URI of one shard (lines 53 to 65), from the set name and the host list that
  lines 50 to 52 cut out of \<^verbatim>\<open>shard.Host\<close>.\<close>

definition shardURI :: "bool \<Rightarrow> ConnString \<Rightarrow> string \<Rightarrow> string \<Rightarrow> string" where
  "shardURI isSRV connString setName hosts =
     (let ruri = ''mongodb://'';
          ruri = (if Username connString \<noteq> []
                  then ruri @ Username connString @ '':''
                         @ QueryEscape (Password connString) @ ''@'' @ hosts
                  else ruri @ hosts);
          ruri = ruri @ ''/'' @ Database connString @ ''?replicaSet='' @ setName;
          ruri = (if \<not> isSRV \<and> AuthSource connString \<noteq> []
                  then ruri @ ''&authSource='' @ AuthSource connString
                  else if isSRV then ruri @ ''&authSource=admin&tls=true''
                  else ruri);
          ruri = ruri @ GetQueryParams connString False
      in ruri)"

text \<open>The loop over the shards. \<^verbatim>\<open>strings.Index\<close> gives \<open>-1\<close> for a host field
  without \<^verbatim>\<open>/\<close>, and \<^verbatim>\<open>shard.Host[:idx]\<close> then panics.\<close>

fun shardLoop :: "bool \<Rightarrow> ConnString \<Rightarrow> 'stats Shard list \<Rightarrow> string list \<Rightarrow> panic + string list"
  where
  "shardLoop isSRV connString [] list = Inr list"
| "shardLoop isSRV connString (shard # shards) list =
     (let idx = Index (Host shard) ''/'' in
      if idx < 0 then Inl SliceBoundsOutOfRange
      else
        (let setName = take (nat idx) (Host shard);
             hosts = drop (nat (idx + 1)) (Host shard)
         in shardLoop isSRV connString shards (list @ [shardURI isSRV connString setName hosts])))"

definition GetAllShardURIs :: "'stats Shard list \<Rightarrow> ConnString \<Rightarrow> uri_result" where
  "GetAllShardURIs shards connString =
     (let isSRV = (Index (String connString) ''mongodb+srv'' = 0) in
      case shardLoop isSRV connString shards [] of
        Inl p \<Rightarrow> Inl p
      | Inr list \<Rightarrow> Inr (list, None))"

section \<open>\<^verbatim>\<open>GetAllServerURIs\<close>\<close>

text \<open>
  The map \<^verbatim>\<open>originalHostsMap\<close> is an association list: an assignment
  \<^verbatim>\<open>m[k] = v\<close> puts \<open>(k, v)\<close> in front, a lookup is \<^term>\<open>map_of\<close> (the entry
  assigned last wins), and \<^verbatim>\<open>len(m) > 0\<close> is \<open>m \<noteq> []\<close>. The body of the
  first loop (lines 81 to 102), for one seed host:
\<close>

type_synonym original_hosts = "(string \<times> string) list \<times> string list"

definition seedHost :: "string \<Rightarrow> original_hosts \<Rightarrow> original_hosts" where
  "seedHost origHost st =
     (case st of (originalHostsMap, originalHostsList) \<Rightarrow>
        (let origHostname =
               (let idx = Index origHost '':'' in
                if idx > 0 then take (nat idx) origHost else origHost);
             originalHostsList = originalHostsList @ [origHostname];
             originalHostsMap =
               (if Contains origHostname ''-pri'' then
                  (let idx = Index origHostname ''-pri'' in
                   if idx > 0 then
                     (let baseHost = take (nat idx) origHostname;
                          domainIdx = Index baseHost ''.'';
                          originalHostsMap =
                            (if domainIdx > 0
                             then (take (nat domainIdx) baseHost, origHostname) # originalHostsMap
                             else originalHostsMap)
                      in (baseHost, origHostname) # originalHostsMap)
                   else originalHostsMap)
                else originalHostsMap)
         in (originalHostsMap, originalHostsList)))"

definition originalHosts :: "ConnString \<Rightarrow> original_hosts" where
  "originalHosts connString = fold seedHost (Hosts connString) ([], [])"

text \<open>The shard identifier of a topology host's first label (lines 128 to 145).\<close>

definition memberShardID :: "string \<Rightarrow> string" where
  "memberShardID firstPart =
     (if Contains firstPart ''-shard-'' then
        (let cleaned = Replace [(''-wucdt'', []), (''-pri'', []), (''-sec'', [])] firstPart;
             idx = Index cleaned ''-shard-''
         in if idx > 0 then
              (let afterShard = drop (nat (idx + 7)) cleaned in
               if length afterShard \<ge> 5 \<and> Contains (take 5 afterShard) ''-''
               then take (nat (idx + 7 + 5)) cleaned
               else cleaned)
            else cleaned)
      else firstPart)"

text \<open>The shard identifier of an original host (lines 156 to 176).\<close>

definition seedShardID :: "string \<Rightarrow> string" where
  "seedShardID origHost =
     (let origBase = origHost;
          origBase = (let idx = Index origHost ''-pri'' in
                      if idx > 0 then take (nat idx) origHost else origBase);
          origBase = (let dotIdx = Index origBase ''.'' in
                      if dotIdx > 0 then take (nat dotIdx) origBase else origBase);
          origShardID = origBase
      in if Contains origBase ''-shard-'' then
           (let cleaned = Replace [(''-wucdt'', []), (''-pri'', []), (''-sec'', [])] origBase;
                idx = Index cleaned ''-shard-''
            in if idx > 0 then
                 (let afterShard = drop (nat (idx + 7)) cleaned in
                  if length afterShard \<ge> 5 \<and> Contains (take 5 afterShard) ''-''
                  then take (nat (idx + 7 + 5)) cleaned
                  else cleaned)
               else origShardID)
         else origShardID)"

text \<open>The scan of \<^verbatim>\<open>originalHostsList\<close> (lines 154 to 183), which stops at the
  first original host with the same shard identifier.\<close>

fun scanOriginal :: "string \<Rightarrow> string list \<Rightarrow> string option" where
  "scanOriginal shardID [] = None"
| "scanOriginal shardID (origHost # rest) =
     (if seedShardID origHost = shardID then Some origHost
      else scanOriginal shardID rest)"

text \<open>Lines 119 to 186: the host name to use and the flag \<^verbatim>\<open>matched\<close>.\<close>

definition matchOriginal :: "original_hosts \<Rightarrow> string \<Rightarrow> string \<times> bool" where
  "matchOriginal orig hostname =
     (case orig of (originalHostsMap, originalHostsList) \<Rightarrow>
        if length originalHostsMap > 0 \<or> length originalHostsList > 0 then
          (case Split hostname ''.'' of
             [] \<Rightarrow> (hostname, False)
           | firstPart # _ \<Rightarrow>
               (let shardID = memberShardID firstPart in
                case map_of originalHostsMap shardID of
                  Some origHost \<Rightarrow> (origHost, True)
                | None \<Rightarrow>
                    (case scanOriginal shardID originalHostsList of
                       Some origHost \<Rightarrow> (origHost, True)
                     | None \<Rightarrow> (hostname, False))))
        else (hostname, False))"

text \<open>Lines 189 to 206, for a host that was not matched: the designation \<^verbatim>\<open>-pri\<close>
  is put before the first dot of an Atlas host name that lacks it.\<close>

definition addPri :: "string \<Rightarrow> string" where
  "addPri hostname =
     (if Contains hostname ''-shard-'' \<and> Contains hostname ''.gcp.mongodb.net'' then
        (if \<not> Contains hostname ''-pri'' then
           (case Split hostname ''.'' of
              firstPart # rest \<Rightarrow>
                Replace [(''-wucdt'', [])] firstPart @ ''-pri.'' @ Join rest ''.''
            | [] \<Rightarrow>
                (let dotIdx = Index hostname ''.'' in
                 if dotIdx > 0
                 then take (nat dotIdx) hostname @ ''-pri'' @ drop (nat dotIdx) hostname
                 else hostname))
         else hostname)
      else hostname)"

text \<open>Lines 110 to 212: the host that the URI of one member addresses.\<close>

definition finalHost :: "original_hosts \<Rightarrow> string \<Rightarrow> string" where
  "finalHost orig host =
     (let idx = Index host '':'';
          hostname = (if idx > 0 then take (nat idx) host else host);
          port = (if idx > 0 then drop (nat idx) host else [])
      in case matchOriginal orig hostname of (hostname, matched) \<Rightarrow>
           (let hostname = (if \<not> matched then addPri hostname else hostname)
            in if port \<noteq> [] then hostname @ port else hostname))"

text \<open>Lines 214 to 232: the URI of one member.\<close>

definition serverURI :: "bool \<Rightarrow> ConnString \<Rightarrow> string \<Rightarrow> string \<Rightarrow> string" where
  "serverURI isSRV connString setName host =
     (let ruri = ''mongodb://'';
          ruri = (if Username connString \<noteq> []
                  then ruri @ Username connString @ '':'' @ QueryEscape (Password connString)
                         @ ''@'' @ host @ ''/?''
                  else ruri @ host @ ''/?'');
          ruri = ruri @ ''replicaSet='' @ setName @ ''&'';
          ruri = (if isSRV then ruri @ ''authSource=admin&tls=true''
                  else if AuthSource connString \<noteq> []
                       then ruri @ ''authSource='' @ AuthSource connString
                  else if Username connString \<noteq> [] then ruri @ ''authSource=admin''
                  else ruri);
          ruri = ruri @ GetQueryParams connString True
      in ruri)"

fun hostLoop ::
  "bool \<Rightarrow> ConnString \<Rightarrow> original_hosts \<Rightarrow> string \<Rightarrow> string list \<Rightarrow> string list \<Rightarrow> string list"
  where
  "hostLoop isSRV connString orig setName [] list = list"
| "hostLoop isSRV connString orig setName (host # hosts) list =
     hostLoop isSRV connString orig setName hosts
       (list @ [serverURI isSRV connString setName (finalHost orig host)])"

fun serverLoop ::
  "bool \<Rightarrow> ConnString \<Rightarrow> original_hosts \<Rightarrow> 'stats Shard list \<Rightarrow> string list
     \<Rightarrow> panic + string list"
  where
  "serverLoop isSRV connString orig [] list = Inr list"
| "serverLoop isSRV connString orig (shard # shards) list =
     (let idx = Index (Host shard) ''/'' in
      if idx < 0 then Inl SliceBoundsOutOfRange
      else
        (let setName = take (nat idx) (Host shard);
             allHosts = drop (nat (idx + 1)) (Host shard);
             hosts = Split allHosts '',''
         in serverLoop isSRV connString orig shards
              (hostLoop isSRV connString orig setName hosts list)))"

definition GetAllServerURIs :: "'stats Shard list \<Rightarrow> ConnString \<Rightarrow> uri_result" where
  "GetAllServerURIs shards connString =
     (let isSRV = HasPrefix (String connString) ''mongodb+srv'';
          orig = originalHosts connString
      in case serverLoop isSRV connString orig shards [] of
           Inl p \<Rightarrow> Inl p
         | Inr list \<Rightarrow> Inr (list, None))"

section \<open>Values and notions used in the statements\<close>

text \<open>The zero value \<^verbatim>\<open>connstring.ConnString{}\<close>, and the composite literal
  \<^verbatim>\<open>Shard{ID: i, Host: h}\<close>.\<close>

definition zeroConnString :: ConnString where
  "zeroConnString =
     \<lparr>Original = [], Hosts = [], Username = [], Password = [], Database = [],
      AuthSource = [], SSLSet = False, SSLCaFileSet = False, SSLCaFile = [],
      SSLClientCertificateKeyFileSet = False, SSLClientCertificateKeyFile = [],
      SSLInsecureSet = False, ReadPreference = [], ReadPreferenceTagSets = [],
      WNumberSet = False, WNumber = 0, WString = [], RetryReadsSet = False,
      RetryWritesSet = False\<rparr>"

definition mkShard :: "string \<Rightarrow> string \<Rightarrow> 'stats Shard" where
  "mkShard i h = \<lparr>ID = i, Host = h, State = 0, Servers = [], Tags = []\<rparr>"

text \<open>Two connection strings with an explicit authSource, written as struct literals
  (only the fields shown are set): a standard one with credentials, and an SRV one.\<close>

definition authConfig :: ConnString where
  "authConfig =
     zeroConnString\<lparr>Original := ''mongodb://u:p@router:27017/admin?authSource=mydb'',
       Hosts := [''router:27017''], Username := ''u'', Password := ''p'',
       Database := ''admin'', AuthSource := ''mydb''\<rparr>"

definition srvConfig :: ConnString where
  "srvConfig =
     zeroConnString\<lparr>Original := ''mongodb+srv://cluster0.example.net/admin?authSource=mydb'',
       Hosts := [''cluster0.example.net''], Database := ''admin'', AuthSource := ''mydb''\<rparr>"

text \<open>The values of the variables \<^verbatim>\<open>setName\<close>, \<^verbatim>\<open>allHosts\<close> and \<^verbatim>\<open>hosts\<close>
  (lines 105 to 108, and 50 to 52) for a shard whose host field has a \<^verbatim>\<open>/\<close>.\<close>

definition shardSetName :: "'stats Shard \<Rightarrow> string" where
  "shardSetName shard = take (nat (Index (Host shard) ''/'')) (Host shard)"

definition shardAllHosts :: "'stats Shard \<Rightarrow> string" where
  "shardAllHosts shard = drop (nat (Index (Host shard) ''/'' + 1)) (Host shard)"

definition shardMembers :: "'stats Shard \<Rightarrow> string list" where
  "shardMembers shard = Split (shardAllHosts shard) '',''"

text \<open>The value of the variable \<^verbatim>\<open>isSRV\<close>, in both functions.\<close>

definition isSRV :: "ConnString \<Rightarrow> bool" where
  "isSRV connString = HasPrefix (String connString) ''mongodb+srv''"

text \<open>The host name without its port: the value of \<^verbatim>\<open>hostname\<close> at line 116 for a
  member, and of \<^verbatim>\<open>origHostname\<close> at line 86 for a seed host.\<close>

definition hostnameOf :: "string \<Rightarrow> string" where
  "hostnameOf host = (let idx = Index host '':'' in if idx > 0 then take (nat idx) host else host)"

text \<open>The first label of a host name: \<^verbatim>\<open>baseParts[0]\<close> at line 126.\<close>

definition firstLabel :: "string \<Rightarrow> string" where
  "firstLabel hostname = (case Split hostname ''.'' of [] \<Rightarrow> [] | firstPart # _ \<Rightarrow> firstPart)"

text \<open>The conditions of lines 189 and 191 together: an Atlas host name without the
  designation \<^verbatim>\<open>-pri\<close>.\<close>

definition lacksDesignation :: "string \<Rightarrow> bool" where
  "lacksDesignation hostname =
     (Contains hostname ''-shard-'' \<and> Contains hostname ''.gcp.mongodb.net''
        \<and> \<not> Contains hostname ''-pri'')"

text \<open>Every \<^verbatim>\<open>&\<close> of a string starts one of the keys \<^verbatim>\<open>t...\<close>, \<^verbatim>\<open>w...\<close> or
  \<^verbatim>\<open>ret...\<close>.\<close>

fun ampGuard :: "string \<Rightarrow> bool" where
  "ampGuard [] = True"
| "ampGuard (c # cs) =
     ((if c = CHR ''&'' then prefix ''t'' cs \<or> prefix ''w'' cs \<or> prefix ''ret'' cs else True)
        \<and> ampGuard cs)"

text \<open>The number of positions of a string at which \<open>sub\<close> occurs.\<close>

fun occurrences :: "string \<Rightarrow> string \<Rightarrow> nat" where
  "occurrences sub [] = (if sub = [] then 1 else 0)"
| "occurrences sub (c # cs) = (if prefix sub (c # cs) then 1 else 0) + occurrences sub cs"

text \<open>
  No text that the two functions copy into a URI as it is holds a \<^verbatim>\<open>=\<close> (the
  password is not among them, it is escaped).
\<close>

definition equalsFree :: "ConnString \<Rightarrow> bool" where
  "equalsFree connString =
     (CHR ''='' \<notin> set (Username connString) \<and>
      CHR ''='' \<notin> set (Database connString) \<and>
      CHR ''='' \<notin> set (AuthSource connString) \<and>
      CHR ''='' \<notin> set (SSLCaFile connString) \<and>
      CHR ''='' \<notin> set (SSLClientCertificateKeyFile connString) \<and>
      CHR ''='' \<notin> set (ReadPreference connString) \<and>
      CHR ''='' \<notin> set (concat (map (\<lambda>(k, v). k @ v) (concat (ReadPreferenceTagSets connString)))) \<and>
      CHR ''='' \<notin> set (WString connString))"

text \<open>Every \<^verbatim>\<open>=\<close> of a string follows a character other than \<^verbatim>\<open>t\<close>; the flag says
  whether the string may begin with \<^verbatim>\<open>=\<close>.\<close>

fun eqGuard :: "bool \<Rightarrow> string \<Rightarrow> bool" where
  "eqGuard ok [] = True"
| "eqGuard ok (c # cs) = ((if c = CHR ''='' then ok else True) \<and> eqGuard (c \<noteq> CHR ''t'') cs)"

section \<open>Each loop as a map\<close>

lemma shardLoop_Inr:
  "(\<And>shard. shard \<in> set shards \<Longrightarrow> 0 \<le> Index (Host shard) ''/'') \<Longrightarrow>
   shardLoop srv connString shards list =
     Inr (list @ map (\<lambda>shard. shardURI srv connString (shardSetName shard)
                                (shardAllHosts shard)) shards)"
proof (induction shards arbitrary: list)
  case Nil
  show ?case by simp
next
  case (Cons shard shards)
  have here: "\<not> Index (Host shard) ''/'' < 0"
    using Cons.prems [of shard] by simp
  have rest: "\<And>list. shardLoop srv connString shards list =
     Inr (list @ map (\<lambda>shard. shardURI srv connString (shardSetName shard)
                                (shardAllHosts shard)) shards)"
    using Cons.IH Cons.prems by simp
  show ?case
    using here by (simp add: Let_def rest shardSetName_def shardAllHosts_def)
qed

lemma shardLoop_Inl:
  "shard \<in> set shards \<Longrightarrow> Index (Host shard) ''/'' < 0 \<Longrightarrow>
   shardLoop srv connString shards list = Inl SliceBoundsOutOfRange"
  by (induction shards arbitrary: list) (auto simp: Let_def)

lemma hostLoop_map:
  "hostLoop srv connString orig setName hosts list =
     list @ map (\<lambda>host. serverURI srv connString setName (finalHost orig host)) hosts"
  by (induction hosts arbitrary: list) simp_all

lemma serverLoop_Inr:
  "(\<And>shard. shard \<in> set shards \<Longrightarrow> 0 \<le> Index (Host shard) ''/'') \<Longrightarrow>
   serverLoop srv connString orig shards list =
     Inr (list @ concat (map (\<lambda>shard.
            map (\<lambda>host. serverURI srv connString (shardSetName shard) (finalHost orig host))
              (shardMembers shard)) shards))"
proof (induction shards arbitrary: list)
  case Nil
  show ?case by simp
next
  case (Cons shard shards)
  have here: "\<not> Index (Host shard) ''/'' < 0"
    using Cons.prems [of shard] by simp
  have rest: "\<And>list. serverLoop srv connString orig shards list =
     Inr (list @ concat (map (\<lambda>shard.
            map (\<lambda>host. serverURI srv connString (shardSetName shard) (finalHost orig host))
              (shardMembers shard)) shards))"
    using Cons.IH Cons.prems by simp
  show ?case
    using here
    by (simp add: Let_def rest hostLoop_map shardSetName_def shardAllHosts_def shardMembers_def)
qed

lemma serverLoop_Inl:
  "shard \<in> set shards \<Longrightarrow> Index (Host shard) ''/'' < 0 \<Longrightarrow>
   serverLoop srv connString orig shards list = Inl SliceBoundsOutOfRange"
  by (induction shards arbitrary: list) (auto simp: Let_def)

lemma GetAllServerURIs_Inr:
  assumes "GetAllServerURIs shards connString = Inr (list, err)"
  shows "list = concat (map (\<lambda>shard.
            map (\<lambda>host. serverURI (HasPrefix (String connString) ''mongodb+srv'') connString
                           (shardSetName shard) (finalHost (originalHosts connString) host))
              (shardMembers shard)) shards)"
    and "\<And>shard. shard \<in> set shards \<Longrightarrow> 0 \<le> Index (Host shard) ''/''"
proof -
  show sep: "0 \<le> Index (Host shard) ''/''" if "shard \<in> set shards" for shard
  proof (rule ccontr)
    assume "\<not> 0 \<le> Index (Host shard) ''/''"
    then have "Index (Host shard) ''/'' < 0" by simp
    from serverLoop_Inl [OF that this] assms show False
      by (simp add: GetAllServerURIs_def Let_def)
  qed
  from serverLoop_Inr [of shards] sep assms
  show "list = concat (map (\<lambda>shard.
            map (\<lambda>host. serverURI (HasPrefix (String connString) ''mongodb+srv'') connString
                           (shardSetName shard) (finalHost (originalHosts connString) host))
              (shardMembers shard)) shards)"
    by (simp add: GetAllServerURIs_def Let_def)
qed

lemma GetAllShardURIs_Inr:
  assumes "GetAllShardURIs shards connString = Inr (list, err)"
  shows "list = map (\<lambda>shard. shardURI (Index (String connString) ''mongodb+srv'' = 0) connString
                           (shardSetName shard) (shardAllHosts shard)) shards"
    and "\<And>shard. shard \<in> set shards \<Longrightarrow> 0 \<le> Index (Host shard) ''/''"
proof -
  show sep: "0 \<le> Index (Host shard) ''/''" if "shard \<in> set shards" for shard
  proof (rule ccontr)
    assume "\<not> 0 \<le> Index (Host shard) ''/''"
    then have "Index (Host shard) ''/'' < 0" by simp
    from shardLoop_Inl [OF that this] assms show False
      by (simp add: GetAllShardURIs_def Let_def)
  qed
  from shardLoop_Inr [of shards] sep assms
  show "list = map (\<lambda>shard. shardURI (Index (String connString) ''mongodb+srv'' = 0) connString
                           (shardSetName shard) (shardAllHosts shard)) shards"
    by (simp add: GetAllShardURIs_def Let_def)
qed

section \<open>Substrings\<close>

lemma Index_zero_iff: "Index s sub = 0 \<longleftrightarrow> prefix sub s"
proof (cases s)
  case Nil
  then show ?thesis by simp
next
  case (Cons c cs)
  have "- 1 \<le> Index cs sub" by (rule Index_ge)
  with Cons show ?thesis by (auto simp: Let_def)
qed

lemma Contains_append: "Contains (a @ n @ b) n"
proof (induction a)
  case Nil
  have "Index (n @ b) n = 0" by (simp add: Index_zero_iff)
  then show ?case by (simp add: Contains_def)
next
  case (Cons x a)
  then show ?case by (simp add: Contains_def Let_def)
qed

section \<open>The authSource parameter of a URI\<close>

lemma shardURI_authSource:
  "\<not> srv \<Longrightarrow> AuthSource connString \<noteq> [] \<Longrightarrow>
   \<exists>pre. shardURI srv connString setName hosts =
     pre @ (''&authSource='' @ AuthSource connString) @ GetQueryParams connString False"
  by (simp add: shardURI_def Let_def del: append_assoc add: append_assoc [symmetric])

lemma shardURI_srv:
  "srv \<Longrightarrow>
   \<exists>pre. shardURI srv connString setName hosts =
     pre @ ''&authSource=admin&tls=true'' @ GetQueryParams connString False"
  by (simp add: shardURI_def Let_def del: append_assoc add: append_assoc [symmetric])

lemma serverURI_authSource:
  "\<not> srv \<Longrightarrow> AuthSource connString \<noteq> [] \<Longrightarrow>
   \<exists>pre. serverURI srv connString setName host =
     pre @ (''&authSource='' @ AuthSource connString) @ GetQueryParams connString True"
proof -
  assume a: "\<not> srv" "AuthSource connString \<noteq> []"
  have split: "\<And>x y. x @ ''&'' @ ''authSource='' @ y = x @ (''&authSource='' @ y)" by simp
  show ?thesis
  proof (cases "Username connString = []")
    case True
    with a have "serverURI srv connString setName host =
      (''mongodb://'' @ host @ ''/?replicaSet='' @ setName)
        @ (''&authSource='' @ AuthSource connString) @ GetQueryParams connString True"
      by (simp add: serverURI_def Let_def)
    then show ?thesis by blast
  next
    case False
    with a have "serverURI srv connString setName host =
      (''mongodb://'' @ Username connString @ '':'' @ QueryEscape (Password connString)
         @ ''@'' @ host @ ''/?replicaSet='' @ setName)
        @ (''&authSource='' @ AuthSource connString) @ GetQueryParams connString True"
      by (simp add: serverURI_def Let_def)
    then show ?thesis by blast
  qed
qed

lemma serverURI_srv:
  "srv \<Longrightarrow>
   \<exists>pre. serverURI srv connString setName host =
     pre @ ''&authSource=admin&tls=true'' @ GetQueryParams connString True"
proof -
  assume a: "srv"
  show ?thesis
  proof (cases "Username connString = []")
    case True
    with a have "serverURI srv connString setName host =
      (''mongodb://'' @ host @ ''/?replicaSet='' @ setName)
        @ ''&authSource=admin&tls=true'' @ GetQueryParams connString True"
      by (simp add: serverURI_def Let_def)
    then show ?thesis by blast
  next
    case False
    with a have "serverURI srv connString setName host =
      (''mongodb://'' @ Username connString @ '':'' @ QueryEscape (Password connString)
         @ ''@'' @ host @ ''/?replicaSet='' @ setName)
        @ ''&authSource=admin&tls=true'' @ GetQueryParams connString True"
      by (simp add: serverURI_def Let_def)
    then show ?thesis by blast
  qed
qed

section \<open>Reconciliation without a matching seed host\<close>

lemma seedHost_no_marker:
  "\<not> Contains (hostnameOf origHost) ''-pri'' \<Longrightarrow>
   seedHost origHost (m, l) = (m, l @ [hostnameOf origHost])"
  by (simp add: seedHost_def hostnameOf_def Let_def)

lemma fold_seedHost_no_marker:
  "(\<And>seed. seed \<in> set hs \<Longrightarrow> \<not> Contains (hostnameOf seed) ''-pri'') \<Longrightarrow>
   fold seedHost hs (m, l) = (m, l @ map hostnameOf hs)"
proof (induction hs arbitrary: l)
  case Nil
  show ?case by simp
next
  case (Cons h hs)
  have "\<not> Contains (hostnameOf h) ''-pri''" using Cons.prems [of h] by simp
  then have "seedHost h (m, l) = (m, l @ [hostnameOf h])" by (rule seedHost_no_marker)
  moreover have "fold seedHost hs (m, l @ [hostnameOf h]) = (m, (l @ [hostnameOf h]) @ map hostnameOf hs)"
    using Cons.prems by (intro Cons.IH) simp
  ultimately show ?case by simp
qed

lemma originalHosts_no_marker:
  "(\<And>seed. seed \<in> set (Hosts connString) \<Longrightarrow> \<not> Contains (hostnameOf seed) ''-pri'') \<Longrightarrow>
   originalHosts connString = ([], map hostnameOf (Hosts connString))"
  using fold_seedHost_no_marker [of "Hosts connString" "[]" "[]"]
  by (simp add: originalHosts_def)

lemma Split_not_Nil: "sep \<noteq> [] \<Longrightarrow> Split s sep \<noteq> []"
  by (subst Split.simps) simp

lemma scanOriginal_None:
  "(\<And>origHost. origHost \<in> set l \<Longrightarrow> seedShardID origHost \<noteq> shardID) \<Longrightarrow>
   scanOriginal shardID l = None"
  by (induction l) simp_all

lemma matchOriginal_miss:
  assumes "\<And>origHost. origHost \<in> set l \<Longrightarrow> seedShardID origHost \<noteq> memberShardID (firstLabel hostname)"
  shows "matchOriginal ([], l) hostname = (hostname, False)"
proof -
  obtain firstPart rest where sp: "Split hostname ''.'' = firstPart # rest"
    using Split_not_Nil [of "''.''" hostname] by (cases "Split hostname ''.''") auto
  then have fl: "firstLabel hostname = firstPart" by (simp add: firstLabel_def)
  have "scanOriginal (memberShardID firstPart) l = None"
    using assms by (intro scanOriginal_None) (simp add: fl)
  then show ?thesis by (simp add: matchOriginal_def sp Let_def)
qed

lemma addPri_id: "\<not> lacksDesignation hostname \<Longrightarrow> addPri hostname = hostname"
  by (auto simp: addPri_def lacksDesignation_def)

lemma finalHost_id:
  assumes nomark: "\<And>seed. seed \<in> set (Hosts connString) \<Longrightarrow> \<not> Contains (hostnameOf seed) ''-pri''"
    and noscan: "\<And>seed. seed \<in> set (Hosts connString) \<Longrightarrow>
        seedShardID (hostnameOf seed) \<noteq> memberShardID (firstLabel (hostnameOf host))"
    and noatlas: "\<not> lacksDesignation (hostnameOf host)"
  shows "finalHost (originalHosts connString) host = host"
proof -
  have orig: "originalHosts connString = ([], map hostnameOf (Hosts connString))"
    using nomark by (rule originalHosts_no_marker)
  have miss: "matchOriginal ([], map hostnameOf (Hosts connString)) (hostnameOf host)
      = (hostnameOf host, False)"
    using noscan by (intro matchOriginal_miss) auto
  have hn: "(if 0 < Index host '':'' then take (nat (Index host '':'')) host else host)
      = hostnameOf host"
    by (simp add: hostnameOf_def Let_def)
  show ?thesis
    by (simp add: finalHost_def Let_def hn orig miss addPri_id [OF noatlas] del: Index.simps)
       (simp add: hostnameOf_def Let_def)
qed

section \<open>The query parameters as one concatenation\<close>

lemma fold_tagEntry_fst:
  "fst (fold tagEntry amap (r, n)) = r @ fst (fold tagEntry amap ([], n))"
proof (induction amap arbitrary: r n)
  case Nil
  show ?case by simp
next
  case (Cons kv amap)
  obtain k v where kv: "kv = (k, v)" by (cases kv)
  let ?piece = "k @ '':'' @ v @ (if n > 0 then '','' else [])"
  have step: "\<And>r. tagEntry kv (r, n) = (r @ ?piece, n + 1)"
    by (simp add: tagEntry_def kv)
  have "fst (fold tagEntry (kv # amap) (r, n)) = fst (fold tagEntry amap (r @ ?piece, n + 1))"
    by (simp only: fold_simps step)
  also have "\<dots> = (r @ ?piece) @ fst (fold tagEntry amap ([], n + 1))"
    by (rule Cons.IH)
  also have "\<dots> = r @ (?piece @ fst (fold tagEntry amap ([], n + 1)))"
    by (simp only: append_assoc)
  also have "?piece @ fst (fold tagEntry amap ([], n + 1)) = fst (fold tagEntry amap (?piece, n + 1))"
    by (rule Cons.IH [symmetric])
  also have "fold tagEntry amap (?piece, n + 1) = fold tagEntry (kv # amap) ([], n)"
    using step [of "[]"] by (simp only: fold_simps append_Nil)
  finally show ?case .
qed

lemma fold_tagEntry_snd: "snd (fold tagEntry amap (r, n)) = n + length amap"
  by (induction amap arbitrary: r n) (auto simp: tagEntry_def)

lemma tagSets_fst:
  "fst (tagSets sets (r, n)) = r @ fst (tagSets sets ([], n))"
proof (induction sets arbitrary: r n)
  case Nil
  show ?case by (simp add: tagSets_def)
next
  case (Cons amap sets)
  let ?t = "fst (fold tagEntry amap ([], n))"
  let ?m = "n + length amap"
  have pair: "\<And>r. fold tagEntry amap (r, n) = (r @ ?t, ?m)"
  proof (rule prod_eqI)
    fix r
    show "fst (fold tagEntry amap (r, n)) = fst (r @ ?t, ?m)"
      using fold_tagEntry_fst [of amap r n] by (simp only: fst_conv)
    show "snd (fold tagEntry amap (r, n)) = snd (r @ ?t, ?m)"
      using fold_tagEntry_snd [of amap r n] by (simp only: snd_conv)
  qed
  have unroll: "\<And>r. tagSets (amap # sets) (r, n) = tagSets sets (r @ ?t, ?m)"
  proof -
    fix r
    have "tagSets (amap # sets) (r, n) = tagSets sets (fold tagEntry amap (r, n))"
      by (simp add: tagSets_def)
    also have "\<dots> = tagSets sets (r @ ?t, ?m)"
      by (rule arg_cong [OF pair])
    finally show "tagSets (amap # sets) (r, n) = tagSets sets (r @ ?t, ?m)" .
  qed
  have "fst (tagSets (amap # sets) (r, n)) = fst (tagSets sets (r @ ?t, ?m))"
    by (rule arg_cong [OF unroll])
  also have "\<dots> = (r @ ?t) @ fst (tagSets sets ([], ?m))"
    by (rule Cons.IH)
  also have "\<dots> = r @ (?t @ fst (tagSets sets ([], ?m)))"
    by (simp only: append_assoc)
  also have "?t @ fst (tagSets sets ([], ?m)) = fst (tagSets sets (?t, ?m))"
    by (rule Cons.IH [symmetric])
  also have "tagSets sets (?t, ?m) = tagSets (amap # sets) ([], n)"
    using unroll [of "[]", symmetric] by (simp only: append_Nil)
  finally show ?case .
qed

lemma tagSets_stage: "(if c then fst (tagSets (ReadPreferenceTagSets connString) (r @ ''&readPreferenceTags='', 0))
       else r)
      = r @ (if c then ''&readPreferenceTags=''
                        @ fst (tagSets (ReadPreferenceTagSets connString) ([], 0)) else [])"
    using tagSets_fst [of "ReadPreferenceTagSets connString" "r @ ''&readPreferenceTags=''" 0]
    by (cases c) (simp_all only: if_True if_False append_assoc append_Nil2)

lemma GetQueryParams_flat:
  "GetQueryParams connString isConnectDirect =
     (if SSLSet connString then ''&tls=true'' else []) @
     (if SSLCaFileSet connString then ''&tlsCAFile='' @ SSLCaFile connString else []) @
     (if SSLClientCertificateKeyFileSet connString
      then ''&tlsCertificateKeyFile='' @ SSLClientCertificateKeyFile connString else []) @
     (if SSLInsecureSet connString then ''&tlsInsecure=true'' else []) @
     (if ReadPreference connString \<noteq> [] \<and> \<not> isConnectDirect
      then ''&readPreference='' @ ReadPreference connString else []) @
     (if length (ReadPreferenceTagSets connString) > 0 \<and> \<not> isConnectDirect
      then ''&readPreferenceTags='' @ fst (tagSets (ReadPreferenceTagSets connString) ([], 0))
      else []) @
     (if WNumberSet connString then ''&w='' @ Sprint_int (WNumber connString)
      else if WString connString \<noteq> [] then ''&w='' @ WString connString else []) @
     (if RetryReadsSet connString then ''&retryReads=true'' else []) @
     (if RetryWritesSet connString then ''&retryWrites=true'' else [])"
proof -
  have a: "\<And>c (r::string) p. (if c then r @ p else r) = r @ (if c then p else [])"
    by simp
  have w: "\<And>c (r::string) p q. (if c then r @ p else r @ q) = r @ (if c then p else q)"
    by simp
  show ?thesis
    by (simp only: GetQueryParams_def Let_def tagSets_stage w a append_Nil append_assoc)
qed

lemma GetQueryParams_direct:
  "GetQueryParams (connString\<lparr>ReadPreference := rp, ReadPreferenceTagSets := ts\<rparr>) True
     = GetQueryParams connString True"
  by (simp add: GetQueryParams_def)

section \<open>The characters of the query parameters\<close>

lemma decimal_digits: "c \<in> set (decimal n) \<Longrightarrow> c \<in> set ''0123456789''"
proof (induction n arbitrary: c rule: decimal.induct)
  case (1 n)
  have d: "\<And>k. k < 10 \<Longrightarrow> ''0123456789'' ! k \<in> set ''0123456789''"
    by (rule nth_mem) simp
  show ?case
  proof (cases "n < 10")
    case True
    then have "decimal n = [''0123456789'' ! n]" by (subst decimal.simps) simp
    with "1.prems" have "c = ''0123456789'' ! n" by simp
    with d [OF True] show ?thesis by (simp only:)
  next
    case False
    then have "decimal n = decimal (n div 10) @ [''0123456789'' ! (n mod 10)]"
      by (subst decimal.simps) simp
    with "1.prems" have "c \<in> set (decimal (n div 10)) \<or> c = ''0123456789'' ! (n mod 10)"
      by auto
    then show ?thesis
    proof
      assume "c \<in> set (decimal (n div 10))"
      with False show ?thesis by (intro "1.IH") simp_all
    next
      assume "c = ''0123456789'' ! (n mod 10)"
      with d [of "n mod 10"] show ?thesis by simp
    qed
  qed
qed

lemma Sprint_int_chars: "c \<in> set (Sprint_int i) \<Longrightarrow> c \<in> set ''-0123456789''"
proof -
  assume c: "c \<in> set (Sprint_int i)"
  have sub: "\<And>c. c \<in> set ''0123456789'' \<Longrightarrow> c \<in> set ''-0123456789''" by simp
  show ?thesis
  proof (cases "i < 0")
    case True
    with c have "c = CHR ''-'' \<or> c \<in> set (decimal (nat (- i)))"
      by (simp add: Sprint_int_def)
    then show ?thesis
    proof
      assume "c = CHR ''-''" then show ?thesis by simp
    next
      assume "c \<in> set (decimal (nat (- i)))"
      then show ?thesis by (intro sub decimal_digits)
    qed
  next
    case False
    with c have "c \<in> set (decimal (nat i))" by (simp add: Sprint_int_def)
    then show ?thesis by (intro sub decimal_digits)
  qed
qed

lemma ampGuard_append: "ampGuard x \<Longrightarrow> ampGuard y \<Longrightarrow> ampGuard (x @ y)"
  by (induction x) (auto split: if_splits)

lemma ampGuard_plain: "CHR ''&'' \<notin> set x \<Longrightarrow> ampGuard x"
  by (induction x) auto

lemma ampGuard_not_Contains:
  "ampGuard u \<Longrightarrow> prefix ''&rea'' n \<Longrightarrow> \<not> Contains u n"
proof -
  assume n: "prefix ''&rea'' n"
  have "ampGuard u \<Longrightarrow> Index u n = - 1"
  proof (induction u)
    case Nil
    from n have "n \<noteq> []" by auto
    then show ?case by simp
  next
    case (Cons c cs)
    have "\<not> prefix n (c # cs)"
    proof
      assume "prefix n (c # cs)"
      with n have "prefix ''&rea'' (c # cs)" by (rule prefix_order.trans)
      then have "c = CHR ''&''" and "prefix ''rea'' cs" by simp_all
      with Cons.prems show False by (auto simp: prefix_def)
    qed
    moreover from Cons have "Index cs n = - 1" by simp
    ultimately show ?case by (simp add: Let_def)
  qed
  moreover assume "ampGuard u"
  ultimately show ?thesis by (simp add: Contains_def)
qed

lemma ampGuard_if: "(c \<Longrightarrow> ampGuard x) \<Longrightarrow> ampGuard (if c then x else [])"
  by simp

lemma ampGuard_if2:
  "(c \<Longrightarrow> ampGuard x) \<Longrightarrow> (d \<Longrightarrow> ampGuard y) \<Longrightarrow>
   ampGuard (if c then x else if d then y else [])"
  by simp

lemma ampGuard_GetQueryParams_direct:
  assumes "CHR ''&'' \<notin> set (SSLCaFile connString)"
    and "CHR ''&'' \<notin> set (SSLClientCertificateKeyFile connString)"
    and "CHR ''&'' \<notin> set (WString connString)"
  shows "ampGuard (GetQueryParams connString True)"
proof -
  have w: "CHR ''&'' \<notin> set (Sprint_int (WNumber connString))"
    using Sprint_int_chars [of "CHR ''&''" "WNumber connString"] by auto
  note pl = ampGuard_plain [OF assms(1)] ampGuard_plain [OF assms(2)]
    ampGuard_plain [OF assms(3)] ampGuard_plain [OF w]
  have lits: "ampGuard ''&tls=true''" "ampGuard ''&tlsCAFile=''"
    "ampGuard ''&tlsCertificateKeyFile=''" "ampGuard ''&tlsInsecure=true''"
    "ampGuard ''&w=''" "ampGuard ''&retryReads=true''" "ampGuard ''&retryWrites=true''"
    by simp_all
  have nil: "ampGuard []" by simp
  have off: "\<And>c (x::string). (if c \<and> \<not> True then x else []) = []" by simp
  show ?thesis
    unfolding GetQueryParams_flat off
    by (intro ampGuard_append ampGuard_if ampGuard_if2 lits pl nil)
qed

lemma upperhex_no_eq: "upperhex n \<noteq> CHR ''=''"
proof -
  have "''0123456789ABCDEF'' ! (n mod 16) \<in> set ''0123456789ABCDEF''"
    by (rule nth_mem) simp
  then show ?thesis unfolding upperhex_def by auto
qed

lemma unreserved_no_eq: "unreserved c \<Longrightarrow> c \<noteq> CHR ''=''"
  unfolding unreserved_def by auto

lemma QueryEscape_no_eq: "CHR ''='' \<notin> set (QueryEscape s)"
  by (induction s) (auto simp: upperhex_no_eq upperhex_no_eq [symmetric] dest: unreserved_no_eq)

lemma tagEntry_no_eq:
  "CHR ''='' \<notin> set (fst st) \<Longrightarrow> CHR ''='' \<notin> set (fst kv) \<Longrightarrow> CHR ''='' \<notin> set (snd kv) \<Longrightarrow>
   CHR ''='' \<notin> set (fst (tagEntry kv st))"
  by (cases st; cases kv) (simp add: tagEntry_def)

lemma fold_tagEntry_no_eq:
  "CHR ''='' \<notin> set (fst st) \<Longrightarrow>
   CHR ''='' \<notin> set (concat (map (\<lambda>(k, v). k @ v) amap)) \<Longrightarrow>
   CHR ''='' \<notin> set (fst (fold tagEntry amap st))"
proof (induction amap arbitrary: st)
  case Nil
  then show ?case by simp
next
  case (Cons kv amap)
  obtain k v where kv: "kv = (k, v)" by (cases kv)
  from Cons.prems have "CHR ''='' \<notin> set k" "CHR ''='' \<notin> set v"
    by (simp_all add: kv)
  with Cons.prems(1) have "CHR ''='' \<notin> set (fst (tagEntry kv st))"
    by (intro tagEntry_no_eq) (simp_all add: kv)
  moreover from Cons.prems have "CHR ''='' \<notin> set (concat (map (\<lambda>(k, v). k @ v) amap))"
    by simp
  ultimately have "CHR ''='' \<notin> set (fst (fold tagEntry amap (tagEntry kv st)))"
    by (rule Cons.IH)
  then show ?case by simp
qed

lemma tagSets_no_eq:
  "CHR ''='' \<notin> set (fst st) \<Longrightarrow>
   CHR ''='' \<notin> set (concat (map (\<lambda>(k, v). k @ v) (concat sets))) \<Longrightarrow>
   CHR ''='' \<notin> set (fst (tagSets sets st))"
proof (induction sets arbitrary: st)
  case Nil
  then show ?case by (simp add: tagSets_def)
next
  case (Cons amap sets)
  from Cons.prems have "CHR ''='' \<notin> set (fst (fold tagEntry amap st))"
    by (intro fold_tagEntry_no_eq) simp_all
  moreover from Cons.prems
  have "CHR ''='' \<notin> set (concat (map (\<lambda>(k, v). k @ v) (concat sets)))"
    by simp
  ultimately have "CHR ''='' \<notin> set (fst (tagSets sets (fold tagEntry amap st)))"
    by (rule Cons.IH)
  then show ?case by (simp add: tagSets_def)
qed

lemma eqGuard_weaken: "eqGuard False y \<Longrightarrow> eqGuard b y"
  by (cases y) (auto split: if_splits)

lemma eqGuard_append: "eqGuard b x \<Longrightarrow> eqGuard False y \<Longrightarrow> eqGuard b (x @ y)"
proof (induction x arbitrary: b)
  case Nil
  then show ?case by (simp add: eqGuard_weaken)
next
  case (Cons c cs)
  then show ?case by (auto split: if_splits)
qed

lemma eqGuard_plain: "CHR ''='' \<notin> set x \<Longrightarrow> eqGuard b x"
  by (induction x arbitrary: b) auto

lemma eqGuard_if: "(c \<Longrightarrow> eqGuard False x) \<Longrightarrow> eqGuard False (if c then x else [])"
  by simp

lemma eqGuard_if2:
  "(c \<Longrightarrow> eqGuard False x) \<Longrightarrow> (d \<Longrightarrow> eqGuard False y) \<Longrightarrow>
   eqGuard False (if c then x else if d then y else [])"
  by simp

lemma eqGuard_GetQueryParams:
  assumes "equalsFree connString"
  shows "eqGuard False (GetQueryParams connString isConnectDirect)"
proof -
  have w: "CHR ''='' \<notin> set (Sprint_int (WNumber connString))"
    using Sprint_int_chars [of "CHR ''=''" "WNumber connString"] by auto
  have tags: "CHR ''='' \<notin> set (fst (tagSets (ReadPreferenceTagSets connString) ([], 0)))"
    using assms by (intro tagSets_no_eq) (simp_all add: equalsFree_def)
  from assms have free: "CHR ''='' \<notin> set (SSLCaFile connString)"
    "CHR ''='' \<notin> set (SSLClientCertificateKeyFile connString)"
    "CHR ''='' \<notin> set (ReadPreference connString)"
    "CHR ''='' \<notin> set (WString connString)"
    by (simp_all add: equalsFree_def)
  note pl = free [THEN eqGuard_plain] w [THEN eqGuard_plain] tags [THEN eqGuard_plain]
  have lits: "eqGuard False ''&tls=true''" "eqGuard False ''&tlsCAFile=''"
    "eqGuard False ''&tlsCertificateKeyFile=''" "eqGuard False ''&tlsInsecure=true''"
    "eqGuard False ''&readPreference=''" "eqGuard False ''&readPreferenceTags=''"
    "eqGuard False ''&w=''" "eqGuard False ''&retryReads=true''"
    "eqGuard False ''&retryWrites=true''"
    by simp_all
  have nil: "eqGuard False []" by simp
  show ?thesis
    unfolding GetQueryParams_flat
    by (intro eqGuard_append eqGuard_if eqGuard_if2 lits pl nil)
qed

section \<open>Occurrences of the replica-set parameter\<close>

lemma occurrences_guarded:
  "eqGuard b z \<Longrightarrow> occurrences (''replicaSet='' @ s) z = 0"
proof (induction z arbitrary: b)
  case Nil
  show ?case by simp
next
  case (Cons c cs)
  have "\<not> prefix (''replicaSet='' @ s) (c # cs)"
  proof
    assume "prefix (''replicaSet='' @ s) (c # cs)"
    then obtain zs where "c # cs = (''replicaSet='' @ s) @ zs" by (rule prefixE)
    with Cons.prems show False by simp
  qed
  moreover from Cons.prems have "eqGuard (c \<noteq> CHR ''t'') cs" by simp
  then have "occurrences (''replicaSet='' @ s) cs = 0" by (rule Cons.IH)
  ultimately show ?case by simp
qed

lemma occurrences_skip:
  "CHR ''='' \<notin> set p \<Longrightarrow>
   occurrences (''replicaSet='' @ s) (p @ ''replicaSet='' @ w)
     = occurrences (''replicaSet='' @ s) (''replicaSet='' @ w)"
proof (induction p)
  case Nil
  show ?case by simp
next
  case (Cons x p)
  let ?u = "(x # p) @ ''replicaSet='' @ w"
  have "\<not> prefix (''replicaSet='' @ s) ?u"
  proof
    assume "prefix (''replicaSet='' @ s) ?u"
    then obtain zs where u: "?u = (''replicaSet='' @ s) @ zs" by (rule prefixE)
    have "((''replicaSet='' @ s) @ zs) ! 10 = CHR ''=''"
      using nth_append_length [of "''replicaSet''" "CHR ''=''" "s @ zs"] by simp
    with u have eq: "?u ! 10 = CHR ''=''" by simp
    have "?u = ((x # p) @ ''replicaSet'') @ (CHR ''='' # w)" by simp
    moreover have "10 < length ((x # p) @ ''replicaSet'')" by simp
    ultimately have "?u ! 10 = ((x # p) @ ''replicaSet'') ! 10"
      by (simp only: nth_append if_True)
    moreover have "((x # p) @ ''replicaSet'') ! 10 \<in> set ((x # p) @ ''replicaSet'')"
      by (rule nth_mem) simp
    ultimately have "CHR ''='' \<in> set ((x # p) @ ''replicaSet'')" using eq by simp
    with Cons.prems show False by simp
  qed
  then have "occurrences (''replicaSet='' @ s) ?u
      = occurrences (''replicaSet='' @ s) (p @ ''replicaSet='' @ w)"
    by simp
  also have "\<dots> = occurrences (''replicaSet='' @ s) (''replicaSet='' @ w)"
    using Cons.prems by (intro Cons.IH) simp
  finally show ?case .
qed

lemma occurrences_here:
  "eqGuard False w \<Longrightarrow> prefix s w \<Longrightarrow>
   occurrences (''replicaSet='' @ s) (''replicaSet='' @ w) = 1"
  using occurrences_guarded [of False w s] by simp

lemma occurrences_replicaSet:
  assumes "CHR ''='' \<notin> set p" and "eqGuard False w" and "prefix s w"
  shows "occurrences (''replicaSet='' @ s) (p @ ''replicaSet='' @ w) = 1"
  using occurrences_skip [OF assms(1), of s w] occurrences_here [OF assms(2,3)] by simp

lemma shardURI_flat:
  "shardURI srv connString setName hosts =
     (''mongodb://'' @
        (if Username connString \<noteq> []
         then Username connString @ '':'' @ QueryEscape (Password connString) @ ''@'' else []) @
        hosts @ ''/'' @ Database connString @ ''?'') @
     ''replicaSet='' @
     (setName @
        (if \<not> srv \<and> AuthSource connString \<noteq> [] then ''&authSource='' @ AuthSource connString
         else if srv then ''&authSource=admin&tls=true'' else []) @
        GetQueryParams connString False)"
  by (simp add: shardURI_def Let_def)

lemma shardURI_Contains:
  "Contains (shardURI srv connString setName hosts) (''replicaSet='' @ setName)"
proof -
  have "shardURI srv connString setName hosts =
     (''mongodb://'' @
        (if Username connString \<noteq> []
         then Username connString @ '':'' @ QueryEscape (Password connString) @ ''@'' else []) @
        hosts @ ''/'' @ Database connString @ ''?'') @
     (''replicaSet='' @ setName) @
        ((if \<not> srv \<and> AuthSource connString \<noteq> [] then ''&authSource='' @ AuthSource connString
         else if srv then ''&authSource=admin&tls=true'' else []) @
        GetQueryParams connString False)"
    by (simp add: shardURI_def Let_def)
  then show ?thesis by (simp only: Contains_append)
qed

lemma shardURI_once:
  assumes free: "equalsFree connString"
    and hosts: "CHR ''='' \<notin> set hosts" and name: "CHR ''='' \<notin> set setName"
  shows "occurrences (''replicaSet='' @ setName) (shardURI srv connString setName hosts) = 1"
proof -
  let ?p = "''mongodb://'' @
        (if Username connString \<noteq> []
         then Username connString @ '':'' @ QueryEscape (Password connString) @ ''@'' else []) @
        hosts @ ''/'' @ Database connString @ ''?''"
  let ?auth = "if \<not> srv \<and> AuthSource connString \<noteq> [] then ''&authSource='' @ AuthSource connString
         else if srv then ''&authSource=admin&tls=true'' else []"
  let ?w = "setName @ ?auth @ GetQueryParams connString False"
  have p: "CHR ''='' \<notin> set ?p"
    using free hosts QueryEscape_no_eq [of "Password connString"]
    by (simp add: equalsFree_def)
  from free have "CHR ''='' \<notin> set (AuthSource connString)"
    by (simp add: equalsFree_def)
  then have "eqGuard False (AuthSource connString)" by (rule eqGuard_plain)
  moreover have "eqGuard False ''&authSource=''" by simp
  ultimately have "eqGuard False (''&authSource='' @ AuthSource connString)"
    by (intro eqGuard_append)
  then have auth: "eqGuard False ?auth" by simp
  have w: "eqGuard False ?w"
    by (rule eqGuard_append [OF eqGuard_plain [OF name]
          eqGuard_append [OF auth eqGuard_GetQueryParams [OF free]]])
  have "prefix setName ?w" by simp
  with p w have "occurrences (''replicaSet='' @ setName) (?p @ ''replicaSet='' @ ?w) = 1"
    by (rule occurrences_replicaSet)
  then show ?thesis by (simp only: shardURI_flat)
qed

section \<open>Properties\<close>

text \<open>
  C1 (as the code has it). For every list of shards whose host fields contain a
  \<^verbatim>\<open>/\<close>, and every connection string, \<^verbatim>\<open>GetAllShardURIs\<close> returns one URI per
  shard, in input order, and each URI contains \<^verbatim>\<open>replicaSet=<name>\<close>, where the name
  is the part of that shard's host field before the first \<^verbatim>\<open>/\<close> (the replica-set
  name, not the \<^verbatim>\<open>id\<close> field). It contains it exactly once when neither the host field
  nor a text of the configuration that goes into the URI as it is holds a \<^verbatim>\<open>=\<close>.
\<close>

theorem discovery_replicaSet:
  assumes sep: "\<forall>shard \<in> set shards. Contains (Host shard) ''/''"
  shows "\<exists>list. GetAllShardURIs shards connString = Inr (list, None) \<and>
           length list = length shards \<and>
           (\<forall>i < length shards.
              Contains (list ! i) (''replicaSet='' @ shardSetName (shards ! i)) \<and>
              (equalsFree connString \<and> CHR ''='' \<notin> set (Host (shards ! i)) \<longrightarrow>
                 occurrences (''replicaSet='' @ shardSetName (shards ! i)) (list ! i) = 1))"
proof -
  let ?srv = "Index (String connString) ''mongodb+srv'' = 0"
  let ?uri = "\<lambda>shard. shardURI ?srv connString (shardSetName shard) (shardAllHosts shard)"
  have "shardLoop ?srv connString shards [] = Inr ([] @ map ?uri shards)"
    using sep by (intro shardLoop_Inr) (simp add: Contains_def)
  then have ret: "GetAllShardURIs shards connString = Inr (map ?uri shards, None)"
    by (simp add: GetAllShardURIs_def)
  have each: "Contains (map ?uri shards ! i) (''replicaSet='' @ shardSetName (shards ! i)) \<and>
      (equalsFree connString \<and> CHR ''='' \<notin> set (Host (shards ! i)) \<longrightarrow>
         occurrences (''replicaSet='' @ shardSetName (shards ! i)) (map ?uri shards ! i) = 1)"
    if i: "i < length shards" for i
  proof -
    let ?shard = "shards ! i"
    have nth: "map ?uri shards ! i = ?uri ?shard" using i by simp
    have c: "Contains (?uri ?shard) (''replicaSet='' @ shardSetName ?shard)"
      by (rule shardURI_Contains)
    have o: "occurrences (''replicaSet='' @ shardSetName ?shard) (?uri ?shard) = 1"
      if free: "equalsFree connString" and host: "CHR ''='' \<notin> set (Host ?shard)"
    proof -
      have "set (shardAllHosts ?shard) \<subseteq> set (Host ?shard)"
        unfolding shardAllHosts_def by (rule set_drop_subset)
      with host have h: "CHR ''='' \<notin> set (shardAllHosts ?shard)" by blast
      have "set (shardSetName ?shard) \<subseteq> set (Host ?shard)"
        unfolding shardSetName_def by (rule set_take_subset)
      with host have n: "CHR ''='' \<notin> set (shardSetName ?shard)" by blast
      from free h n show ?thesis by (rule shardURI_once)
    qed
    from c o show ?thesis by (simp only: nth) blast
  qed
  from ret each show ?thesis by (intro exI [of _ "map ?uri shards"]) simp
qed

theorem discovery_replicaSet_witness:
  "(Contains (Host (mkShard ''shard01'' ''rs0/h1:27018,h2:27018'' :: unit Shard)) ''/'' \<and>
    Contains (Host (mkShard ''shard02'' ''rs1/h3:27018'' :: unit Shard)) ''/'' \<and>
    equalsFree (zeroConnString\<lparr>Username := ''u'', Password := ''p=w'', Database := ''admin'',
        SSLSet := True, ReadPreference := ''secondary''\<rparr>) \<and>
    CHR ''='' \<notin> set (Host (mkShard ''shard01'' ''rs0/h1:27018,h2:27018'' :: unit Shard))) \<and>
   GetAllShardURIs
       [mkShard ''shard01'' ''rs0/h1:27018,h2:27018'' :: unit Shard, mkShard ''shard02'' ''rs1/h3:27018'']
       (zeroConnString\<lparr>Username := ''u'', Password := ''p=w'', Database := ''admin'',
          SSLSet := True, ReadPreference := ''secondary''\<rparr>)
     = Inr ([''mongodb://u:p%3Dw@h1:27018,h2:27018/admin?replicaSet=rs0&tls=true&readPreference=secondary'',
             ''mongodb://u:p%3Dw@h3:27018/admin?replicaSet=rs1&tls=true&readPreference=secondary''],
            None) \<and>
   (\<exists>list. GetAllShardURIs
       [mkShard ''shard01'' ''rs0/h1:27018,h2:27018'' :: unit Shard, mkShard ''shard02'' ''rs1/h3:27018'']
       (zeroConnString\<lparr>Username := ''u'', Password := ''p=w'', Database := ''admin'',
          SSLSet := True, ReadPreference := ''secondary''\<rparr>) = Inr (list, None) \<and>
      Contains (list ! 0) (''replicaSet='' @ shardSetName
          (mkShard ''shard01'' ''rs0/h1:27018,h2:27018'' :: unit Shard)) \<and>
      occurrences (''replicaSet='' @ shardSetName
          (mkShard ''shard01'' ''rs0/h1:27018,h2:27018'' :: unit Shard)) (list ! 0) = 1)"
proof -
  let ?s1 = "mkShard ''shard01'' ''rs0/h1:27018,h2:27018'' :: unit Shard"
  let ?s2 = "mkShard ''shard02'' ''rs1/h3:27018'' :: unit Shard"
  let ?cs = "zeroConnString\<lparr>Username := ''u'', Password := ''p=w'', Database := ''admin'',
          SSLSet := True, ReadPreference := ''secondary''\<rparr>"
  have a1: "Contains (Host ?s1) ''/''" by code_simp
  have a2: "Contains (Host ?s2) ''/''" by code_simp
  have b: "equalsFree ?cs" by code_simp
  have c: "CHR ''='' \<notin> set (Host ?s1)" by code_simp
  have d: "GetAllShardURIs [?s1, ?s2] ?cs
     = Inr ([''mongodb://u:p%3Dw@h1:27018,h2:27018/admin?replicaSet=rs0&tls=true&readPreference=secondary'',
             ''mongodb://u:p%3Dw@h3:27018/admin?replicaSet=rs1&tls=true&readPreference=secondary''],
            None)"
    by code_simp
  have sep: "\<forall>shard \<in> set [?s1, ?s2]. Contains (Host shard) ''/''"
    using a1 a2 by simp
  from discovery_replicaSet [OF sep, of ?cs]
  obtain list where ret: "GetAllShardURIs [?s1, ?s2] ?cs = Inr (list, None)"
    and each: "\<forall>i < length [?s1, ?s2].
              Contains (list ! i) (''replicaSet='' @ shardSetName ([?s1, ?s2] ! i)) \<and>
              (equalsFree ?cs \<and> CHR ''='' \<notin> set (Host ([?s1, ?s2] ! i)) \<longrightarrow>
                 occurrences (''replicaSet='' @ shardSetName ([?s1, ?s2] ! i)) (list ! i) = 1)"
    by blast
  have zero: "(0::nat) < length [?s1, ?s2]" by simp
  have first: "[?s1, ?s2] ! 0 = ?s1" by simp
  have "Contains (list ! 0) (''replicaSet='' @ shardSetName ?s1) \<and>
      (equalsFree ?cs \<and> CHR ''='' \<notin> set (Host ?s1) \<longrightarrow>
         occurrences (''replicaSet='' @ shardSetName ?s1) (list ! 0) = 1)"
    using each [THEN spec, THEN mp, OF zero] unfolding first .
  with b c have e: "Contains (list ! 0) (''replicaSet='' @ shardSetName ?s1) \<and>
      occurrences (''replicaSet='' @ shardSetName ?s1) (list ! 0) = 1"
    by blast
  have f: "\<exists>list. GetAllShardURIs [?s1, ?s2] ?cs = Inr (list, None) \<and>
      Contains (list ! 0) (''replicaSet='' @ shardSetName ?s1) \<and>
      occurrences (''replicaSet='' @ shardSetName ?s1) (list ! 0) = 1"
    by (rule exI [of _ list]) (rule conjI [OF ret e])
  show ?thesis
    by (rule conjI [OF conjI [OF a1 conjI [OF a2 conjI [OF b c]]] conjI [OF d f]])
qed

theorem replicaSet_is_not_shard_id:
  "ID (mkShard ''shard01'' ''rs0/h1:27018'' :: unit Shard) = ''shard01'' \<and>
   GetAllShardURIs [mkShard ''shard01'' ''rs0/h1:27018'' :: unit Shard]
       (zeroConnString\<lparr>Database := ''admin''\<rparr>)
     = Inr ([''mongodb://h1:27018/admin?replicaSet=rs0''], None) \<and>
   occurrences ''replicaSet=shard01'' ''mongodb://h1:27018/admin?replicaSet=rs0'' = 0 \<and>
   ID (mkShard ''rs0'' ''rs0/h1:27018'' :: unit Shard) = ''rs0'' \<and>
   GetAllShardURIs [mkShard ''rs0'' ''rs0/h1:27018'' :: unit Shard]
       (zeroConnString\<lparr>Database := ''replicaSet=rs0''\<rparr>)
     = Inr ([''mongodb://h1:27018/replicaSet=rs0?replicaSet=rs0''], None) \<and>
   occurrences ''replicaSet=rs0'' ''mongodb://h1:27018/replicaSet=rs0?replicaSet=rs0'' = 2"
  by code_simp

text \<open>
  C2 (the code differs). A host field without \<^verbatim>\<open>/\<close> makes both functions panic, for
  every connection string; a host field with no member after the \<^verbatim>\<open>/\<close> makes both
  return a URI without a host, and a nil error.
\<close>

theorem missing_separator_panics:
  "GetAllShardURIs [mkShard ''shard01'' ''h1:27018,h2:27018''] connString
     = Inl SliceBoundsOutOfRange \<and>
   GetAllServerURIs [mkShard ''shard01'' ''h1:27018,h2:27018''] connString
     = Inl SliceBoundsOutOfRange \<and>
   GetAllShardURIs [mkShard ''shard01'' ''shard01/''] zeroConnString
     = Inr ([''mongodb:///?replicaSet=shard01''], None) \<and>
   GetAllServerURIs [mkShard ''shard01'' ''shard01/''] zeroConnString
     = Inr ([''mongodb:///?replicaSet=shard01&''], None)"
proof -
  have i: "Index ''h1:27018,h2:27018'' ''/'' = - 1" by code_simp
  have a: "GetAllShardURIs [mkShard ''shard01'' ''h1:27018,h2:27018''] connString
     = Inl SliceBoundsOutOfRange"
    by (simp add: GetAllShardURIs_def mkShard_def i del: Index.simps)
  have b: "GetAllServerURIs [mkShard ''shard01'' ''h1:27018,h2:27018''] connString
     = Inl SliceBoundsOutOfRange"
    by (simp add: GetAllServerURIs_def mkShard_def i del: Index.simps)
  have c: "GetAllShardURIs [mkShard ''shard01'' ''shard01/''] zeroConnString
     = Inr ([''mongodb:///?replicaSet=shard01''], None)"
    by code_simp
  have d: "GetAllServerURIs [mkShard ''shard01'' ''shard01/''] zeroConnString
     = Inr ([''mongodb:///?replicaSet=shard01&''], None)"
    by code_simp
  from a b c d show ?thesis by blast
qed

text \<open>
  C3 (as the code has it). If no seed host carries the designation \<^verbatim>\<open>-pri\<close> (in
  particular if there is no seed host), then the reconciliation in
  \<^verbatim>\<open>GetAllServerURIs\<close> is the identity on every member host whose shard identifier
  is not that of a seed host and whose name is not an Atlas name without the designation
  (one that contains \<^verbatim>\<open>-shard-\<close> and \<^verbatim>\<open>.gcp.mongodb.net\<close> and not
  \<^verbatim>\<open>-pri\<close>): the direct-mode URI of such a member addresses the host as the shard's
  host field reports it, port included, whatever happens to the other members.
\<close>

theorem reconciliation_identity:
  assumes ret: "GetAllServerURIs shards connString = Inr (list, err)"
    and nomark: "\<forall>seed \<in> set (Hosts connString). \<not> Contains (hostnameOf seed) ''-pri''"
    and shard: "shard \<in> set shards"
    and member: "host \<in> set (shardMembers shard)"
    and nomatch: "\<forall>seed \<in> set (Hosts connString).
        seedShardID (hostnameOf seed) \<noteq> memberShardID (firstLabel (hostnameOf host))"
    and noatlas: "\<not> lacksDesignation (hostnameOf host)"
  shows "finalHost (originalHosts connString) host = host \<and>
         serverURI (isSRV connString) connString (shardSetName shard) host \<in> set list"
proof -
  have idem: "finalHost (originalHosts connString) host = host"
    using nomark nomatch noatlas by (intro finalHost_id) auto
  have "list = concat (map (\<lambda>shard.
            map (\<lambda>host. serverURI (isSRV connString) connString
                           (shardSetName shard) (finalHost (originalHosts connString) host))
              (shardMembers shard)) shards)"
    using GetAllServerURIs_Inr(1) [OF ret] by (simp only: isSRV_def)
  with shard member
  have "serverURI (isSRV connString) connString (shardSetName shard)
          (finalHost (originalHosts connString) host) \<in> set list"
    by auto
  with idem show ?thesis by simp
qed

theorem reconciliation_identity_witness:
  "GetAllServerURIs
       [mkShard ''shard01'' ''shard01/h1.internal:27018,h2.internal:27018'' :: unit Shard]
       (zeroConnString\<lparr>Hosts := [''h1.example.com:27017'']\<rparr>)
     = Inr ([''mongodb://h1.example.com:27018/?replicaSet=shard01&'',
             ''mongodb://h2.internal:27018/?replicaSet=shard01&''], None) \<and>
   \<not> Contains (hostnameOf ''h1.example.com:27017'') ''-pri'' \<and>
   ''h2.internal:27018'' \<in> set (shardMembers
       (mkShard ''shard01'' ''shard01/h1.internal:27018,h2.internal:27018'' :: unit Shard)) \<and>
   seedShardID (hostnameOf ''h1.example.com:27017'')
     \<noteq> memberShardID (firstLabel (hostnameOf ''h2.internal:27018'')) \<and>
   \<not> lacksDesignation (hostnameOf ''h2.internal:27018'') \<and>
   finalHost (originalHosts (zeroConnString\<lparr>Hosts := [''h1.example.com:27017'']\<rparr>))
       ''h2.internal:27018'' = ''h2.internal:27018'' \<and>
   serverURI (isSRV (zeroConnString\<lparr>Hosts := [''h1.example.com:27017'']\<rparr>))
       (zeroConnString\<lparr>Hosts := [''h1.example.com:27017'']\<rparr>)
       (shardSetName
          (mkShard ''shard01'' ''shard01/h1.internal:27018,h2.internal:27018'' :: unit Shard))
       ''h2.internal:27018''
     \<in> set [''mongodb://h1.example.com:27018/?replicaSet=shard01&'',
            ''mongodb://h2.internal:27018/?replicaSet=shard01&'']"
proof -
  let ?cs = "zeroConnString\<lparr>Hosts := [''h1.example.com:27017'']\<rparr>"
  let ?sh = "mkShard ''shard01'' ''shard01/h1.internal:27018,h2.internal:27018'' :: unit Shard"
  have a: "GetAllServerURIs [?sh] ?cs
     = Inr ([''mongodb://h1.example.com:27018/?replicaSet=shard01&'',
             ''mongodb://h2.internal:27018/?replicaSet=shard01&''], None)"
    by code_simp
  have b: "\<not> Contains (hostnameOf ''h1.example.com:27017'') ''-pri''"
    by code_simp
  have m: "''h2.internal:27018'' \<in> set (shardMembers ?sh)"
    by code_simp
  have c: "seedShardID (hostnameOf ''h1.example.com:27017'')
     \<noteq> memberShardID (firstLabel (hostnameOf ''h2.internal:27018''))"
    by code_simp
  have d: "\<not> lacksDesignation (hostnameOf ''h2.internal:27018'')"
    by code_simp
  have nomark: "\<forall>seed \<in> set (Hosts ?cs). \<not> Contains (hostnameOf seed) ''-pri''"
    using b by simp
  have nomatch: "\<forall>seed \<in> set (Hosts ?cs).
        seedShardID (hostnameOf seed) \<noteq> memberShardID (firstLabel (hostnameOf ''h2.internal:27018''))"
    using c by simp
  have s: "?sh \<in> set [?sh]" by simp
  note r = reconciliation_identity [OF a nomark s m nomatch d]
  show ?thesis
    by (rule conjI [OF a conjI [OF b conjI [OF m conjI [OF c conjI [OF d r]]]]])
qed

theorem reconciliation_changes_hosts:
  "Hosts zeroConnString = [] \<and>
   GetAllServerURIs
       [mkShard ''shard01'' ''shard01/c0-shard-00-00.ab12c.gcp.mongodb.net:27017'' :: unit Shard]
       zeroConnString
     = Inr ([''mongodb://c0-shard-00-00-pri.ab12c.gcp.mongodb.net:27017/?replicaSet=shard01&''],
            None) \<and>
   \<not> Contains ''h1.example.com:27017'' ''-pri'' \<and>
   GetAllServerURIs [mkShard ''shard01'' ''shard01/h1.internal:27018'' :: unit Shard]
       (zeroConnString\<lparr>Hosts := [''h1.example.com:27017'']\<rparr>)
     = Inr ([''mongodb://h1.example.com:27018/?replicaSet=shard01&''], None)"
  by code_simp

text \<open>
  C4 (the code differs). For the shard \<^verbatim>\<open>{id: "shard01", host: "shard01/h1:27018,h2:27018"}\<close>
  and the configuration with database \<^verbatim>\<open>admin\<close> and nothing else set,
  \<^verbatim>\<open>GetAllShardURIs\<close> returns the one URI that the specification gives, and
  \<^verbatim>\<open>GetAllServerURIs\<close> returns two URIs that each end in a dangling \<^verbatim>\<open>&\<close>:
  line 222 appends the separator with the replica-set name, whether or not a parameter
  follows.
\<close>

theorem end_to_end_example:
  "GetAllShardURIs [mkShard ''shard01'' ''shard01/h1:27018,h2:27018'']
       (zeroConnString\<lparr>Database := ''admin''\<rparr>)
     = Inr ([''mongodb://h1:27018,h2:27018/admin?replicaSet=shard01''], None) \<and>
   GetAllServerURIs [mkShard ''shard01'' ''shard01/h1:27018,h2:27018'']
       (zeroConnString\<lparr>Database := ''admin''\<rparr>)
     = Inr ([''mongodb://h1:27018/?replicaSet=shard01&'',
             ''mongodb://h2:27018/?replicaSet=shard01&''], None)"
  by code_simp

text \<open>
  C5 (as the code has it). In both modes the scheme decides first: for a connection
  string that is not SRV and has an explicit authSource, every generated URI carries
  \<^verbatim>\<open>&authSource=\<close> with that value, right before the output of
  \<^verbatim>\<open>GetQueryParams\<close>; for an SRV connection string every generated URI carries
  \<^verbatim>\<open>&authSource=admin&tls=true\<close> there, whether or not an explicit authSource is set.
\<close>

theorem authSource_policy:
  assumes disc: "GetAllShardURIs shards connString = Inr (list, err)"
    and direct: "GetAllServerURIs shards connString = Inr (list', err')"
  shows "(\<not> isSRV connString \<and> AuthSource connString \<noteq> [] \<longrightarrow>
            (\<forall>uri \<in> set list. \<exists>pre. uri =
               pre @ (''&authSource='' @ AuthSource connString) @ GetQueryParams connString False) \<and>
            (\<forall>uri \<in> set list'. \<exists>pre. uri =
               pre @ (''&authSource='' @ AuthSource connString) @ GetQueryParams connString True)) \<and>
         (isSRV connString \<longrightarrow>
            (\<forall>uri \<in> set list. \<exists>pre. uri =
               pre @ ''&authSource=admin&tls=true'' @ GetQueryParams connString False) \<and>
            (\<forall>uri \<in> set list'. \<exists>pre. uri =
               pre @ ''&authSource=admin&tls=true'' @ GetQueryParams connString True))"
proof -
  have srv: "(Index (String connString) ''mongodb+srv'' = 0) = isSRV connString"
    by (simp add: isSRV_def HasPrefix_def Index_zero_iff)
  have l: "list = map (\<lambda>shard. shardURI (isSRV connString) connString
                           (shardSetName shard) (shardAllHosts shard)) shards"
    using GetAllShardURIs_Inr(1) [OF disc] by (simp only: srv)
  have l': "list' = concat (map (\<lambda>shard.
            map (\<lambda>host. serverURI (isSRV connString) connString
                           (shardSetName shard) (finalHost (originalHosts connString) host))
              (shardMembers shard)) shards)"
    using GetAllServerURIs_Inr(1) [OF direct] by (simp only: isSRV_def)
  show ?thesis
  proof (intro conjI impI ballI)
    fix uri assume "\<not> isSRV connString \<and> AuthSource connString \<noteq> []" "uri \<in> set list"
    with l show "\<exists>pre. uri =
        pre @ (''&authSource='' @ AuthSource connString) @ GetQueryParams connString False"
      using shardURI_authSource [of "isSRV connString" connString] by auto
  next
    fix uri assume "\<not> isSRV connString \<and> AuthSource connString \<noteq> []" "uri \<in> set list'"
    with l' show "\<exists>pre. uri =
        pre @ (''&authSource='' @ AuthSource connString) @ GetQueryParams connString True"
      using serverURI_authSource [of "isSRV connString" connString] by auto
  next
    fix uri assume "isSRV connString" "uri \<in> set list"
    with l show "\<exists>pre. uri =
        pre @ ''&authSource=admin&tls=true'' @ GetQueryParams connString False"
      using shardURI_srv [of "isSRV connString" connString] by auto
  next
    fix uri assume "isSRV connString" "uri \<in> set list'"
    with l' show "\<exists>pre. uri =
        pre @ ''&authSource=admin&tls=true'' @ GetQueryParams connString True"
      using serverURI_srv [of "isSRV connString" connString] by auto
  qed
qed

theorem authSource_policy_witness:
  "(GetAllShardURIs [mkShard ''shard01'' ''shard01/h1:27018,h2:27018'' :: unit Shard] authConfig
      = Inr ([''mongodb://u:p@h1:27018,h2:27018/admin?replicaSet=shard01&authSource=mydb''], None) \<and>
    GetAllServerURIs [mkShard ''shard01'' ''shard01/h1:27018,h2:27018'' :: unit Shard] authConfig
      = Inr ([''mongodb://u:p@h1:27018/?replicaSet=shard01&authSource=mydb'',
              ''mongodb://u:p@h2:27018/?replicaSet=shard01&authSource=mydb''], None) \<and>
    \<not> isSRV authConfig \<and> AuthSource authConfig \<noteq> []) \<and>
   (\<exists>pre. ''mongodb://u:p@h1:27018,h2:27018/admin?replicaSet=shard01&authSource=mydb'' =
      pre @ (''&authSource='' @ AuthSource authConfig) @ GetQueryParams authConfig False) \<and>
   (\<exists>pre. ''mongodb://u:p@h1:27018/?replicaSet=shard01&authSource=mydb'' =
      pre @ (''&authSource='' @ AuthSource authConfig) @ GetQueryParams authConfig True) \<and>
   (GetAllShardURIs [mkShard ''shard01'' ''shard01/h1:27018'' :: unit Shard] srvConfig
      = Inr ([''mongodb://h1:27018/admin?replicaSet=shard01&authSource=admin&tls=true''], None) \<and>
    GetAllServerURIs [mkShard ''shard01'' ''shard01/h1:27018'' :: unit Shard] srvConfig
      = Inr ([''mongodb://h1:27018/?replicaSet=shard01&authSource=admin&tls=true''], None) \<and>
    isSRV srvConfig) \<and>
   (\<exists>pre. ''mongodb://h1:27018/admin?replicaSet=shard01&authSource=admin&tls=true'' =
      pre @ ''&authSource=admin&tls=true'' @ GetQueryParams srvConfig False) \<and>
   (\<exists>pre. ''mongodb://h1:27018/?replicaSet=shard01&authSource=admin&tls=true'' =
      pre @ ''&authSource=admin&tls=true'' @ GetQueryParams srvConfig True)"
proof -
  let ?shards = "[mkShard ''shard01'' ''shard01/h1:27018,h2:27018'' :: unit Shard]"
  let ?uri = "''mongodb://u:p@h1:27018,h2:27018/admin?replicaSet=shard01&authSource=mydb''"
  let ?uri1 = "''mongodb://u:p@h1:27018/?replicaSet=shard01&authSource=mydb''"
  let ?uri2 = "''mongodb://u:p@h2:27018/?replicaSet=shard01&authSource=mydb''"
  have a: "GetAllShardURIs ?shards authConfig = Inr ([?uri], None)"
    by code_simp
  have b: "GetAllServerURIs ?shards authConfig = Inr ([?uri1, ?uri2], None)"
    by code_simp
  have c: "\<not> isSRV authConfig" by code_simp
  have d: "AuthSource authConfig \<noteq> []" by code_simp
  have e: "?uri \<in> set [?uri]" by simp
  have e': "?uri1 \<in> set [?uri1, ?uri2]" by simp
  note std = authSource_policy [OF a b, THEN conjunct1, THEN mp, OF conjI [OF c d]]
  note r = std [THEN conjunct1, THEN bspec, OF e]
  note r' = std [THEN conjunct2, THEN bspec, OF e']
  let ?one = "[mkShard ''shard01'' ''shard01/h1:27018'' :: unit Shard]"
  let ?suri = "''mongodb://h1:27018/admin?replicaSet=shard01&authSource=admin&tls=true''"
  let ?suri' = "''mongodb://h1:27018/?replicaSet=shard01&authSource=admin&tls=true''"
  have sa: "GetAllShardURIs ?one srvConfig = Inr ([?suri], None)"
    by code_simp
  have sb: "GetAllServerURIs ?one srvConfig = Inr ([?suri'], None)"
    by code_simp
  have sc: "isSRV srvConfig" by code_simp
  have se: "?suri \<in> set [?suri]" by simp
  have se': "?suri' \<in> set [?suri']" by simp
  note srv = authSource_policy [OF sa sb, THEN conjunct2, THEN mp, OF sc]
  note s = srv [THEN conjunct1, THEN bspec, OF se]
  note s' = srv [THEN conjunct2, THEN bspec, OF se']
  show ?thesis
    by (rule conjI [OF conjI [OF a conjI [OF b conjI [OF c d]]]
          conjI [OF r conjI [OF r' conjI [OF conjI [OF sa conjI [OF sb sc]] conjI [OF s s']]]]])
qed

theorem srv_overrides_explicit_authSource:
  "isSRV srvConfig \<and> AuthSource srvConfig = ''mydb'' \<and>
   GetAllShardURIs [mkShard ''shard01'' ''shard01/h1:27018'' :: unit Shard] srvConfig
     = Inr ([''mongodb://h1:27018/admin?replicaSet=shard01&authSource=admin&tls=true''], None) \<and>
   GetAllServerURIs [mkShard ''shard01'' ''shard01/h1:27018'' :: unit Shard] srvConfig
     = Inr ([''mongodb://h1:27018/?replicaSet=shard01&authSource=admin&tls=true''], None) \<and>
   \<not> Contains ''mongodb://h1:27018/admin?replicaSet=shard01&authSource=admin&tls=true''
        ''authSource=mydb'' \<and>
   \<not> Contains ''mongodb://h1:27018/?replicaSet=shard01&authSource=admin&tls=true''
        ''authSource=mydb''"
  by code_simp

text \<open>
  C6 (the code differs). The two entry lists below are the same Go map, visited by
  \<^verbatim>\<open>range\<close> in the two possible orders; the suffix that \<^verbatim>\<open>GetQueryParams\<close>
  builds differs with the order.
\<close>

theorem tag_order_changes_output:
  "distinct (map fst [(''dc'', ''east''), (''rack'', ''1'')]) \<and>
   distinct (map fst [(''rack'', ''1''), (''dc'', ''east'')]) \<and>
   map_of [(''dc'', ''east''), (''rack'', ''1'')] = map_of [(''rack'', ''1''), (''dc'', ''east'')] \<and>
   GetQueryParams (zeroConnString\<lparr>ReadPreferenceTagSets :=
        [[(''dc'', ''east''), (''rack'', ''1'')]]\<rparr>) False
     = ''&readPreferenceTags=dc:eastrack:1,'' \<and>
   GetQueryParams (zeroConnString\<lparr>ReadPreferenceTagSets :=
        [[(''rack'', ''1''), (''dc'', ''east'')]]\<rparr>) False
     = ''&readPreferenceTags=rack:1dc:east,''"
proof -
  have d: "distinct (map fst [(''dc'', ''east''), (''rack'', ''1'')])"
    "distinct (map fst [(''rack'', ''1''), (''dc'', ''east'')])"
    by simp_all
  have m: "map_of [(''dc'', ''east''), (''rack'', ''1'')]
      = map_of [(''rack'', ''1''), (''dc'', ''east'')]"
    by (rule ext) simp
  have a: "GetQueryParams (zeroConnString\<lparr>ReadPreferenceTagSets :=
        [[(''dc'', ''east''), (''rack'', ''1'')]]\<rparr>) False
     = ''&readPreferenceTags=dc:eastrack:1,''"
    by code_simp
  have b: "GetQueryParams (zeroConnString\<lparr>ReadPreferenceTagSets :=
        [[(''rack'', ''1''), (''dc'', ''east'')]]\<rparr>) False
     = ''&readPreferenceTags=rack:1dc:east,''"
    by code_simp
  from d m a b show ?thesis by blast
qed

text \<open>
  C7. With the single seed host \<^verbatim>\<open>prod-x-shard-00-00-pri.example.net\<close>, the
  reconciliation in \<^verbatim>\<open>GetAllServerURIs\<close> resolves the member
  \<^verbatim>\<open>prod-x-shard-00-00.example.net:27017\<close> to
  \<^verbatim>\<open>prod-x-shard-00-00-pri.example.net:27017\<close>, and whenever the function returns,
  the URI of that resolved host, with the set name of the member's shard, is in the list.
\<close>

theorem seed_designation_restored:
  assumes seed: "Hosts connString = [''prod-x-shard-00-00-pri.example.net'']"
    and ret: "GetAllServerURIs shards connString = Inr (list, err)"
    and shard: "shard \<in> set shards"
    and member: "''prod-x-shard-00-00.example.net:27017'' \<in> set (shardMembers shard)"
  shows "finalHost (originalHosts connString) ''prod-x-shard-00-00.example.net:27017''
           = ''prod-x-shard-00-00-pri.example.net:27017'' \<and>
         serverURI (HasPrefix (String connString) ''mongodb+srv'') connString
             (shardSetName shard) ''prod-x-shard-00-00-pri.example.net:27017'' \<in> set list"
proof -
  have "finalHost (fold seedHost [''prod-x-shard-00-00-pri.example.net''] ([], []))
      ''prod-x-shard-00-00.example.net:27017''
     = ''prod-x-shard-00-00-pri.example.net:27017''"
    by code_simp
  with seed have final: "finalHost (originalHosts connString)
      ''prod-x-shard-00-00.example.net:27017'' = ''prod-x-shard-00-00-pri.example.net:27017''"
    by (simp add: originalHosts_def)
  from GetAllServerURIs_Inr(1) [OF ret] shard member
  have "serverURI (HasPrefix (String connString) ''mongodb+srv'') connString (shardSetName shard)
          (finalHost (originalHosts connString) ''prod-x-shard-00-00.example.net:27017'')
        \<in> set list"
    by auto
  with final show ?thesis by simp
qed

theorem seed_designation_restored_witness:
  "Hosts (zeroConnString\<lparr>Hosts := [''prod-x-shard-00-00-pri.example.net'']\<rparr>)
     = [''prod-x-shard-00-00-pri.example.net''] \<and>
   GetAllServerURIs
       [mkShard ''shard01'' ''shard01/prod-x-shard-00-00.example.net:27017,prod-x-shard-00-01.example.net:27017'' :: unit Shard]
       (zeroConnString\<lparr>Hosts := [''prod-x-shard-00-00-pri.example.net'']\<rparr>)
     = Inr ([''mongodb://prod-x-shard-00-00-pri.example.net:27017/?replicaSet=shard01&'',
             ''mongodb://prod-x-shard-00-01.example.net:27017/?replicaSet=shard01&''], None) \<and>
   ''prod-x-shard-00-00.example.net:27017'' \<in> set (shardMembers
       (mkShard ''shard01'' ''shard01/prod-x-shard-00-00.example.net:27017,prod-x-shard-00-01.example.net:27017'' :: unit Shard)) \<and>
   finalHost (originalHosts (zeroConnString\<lparr>Hosts := [''prod-x-shard-00-00-pri.example.net'']\<rparr>))
       ''prod-x-shard-00-00.example.net:27017''
     = ''prod-x-shard-00-00-pri.example.net:27017''"
proof -
  let ?cs = "zeroConnString\<lparr>Hosts := [''prod-x-shard-00-00-pri.example.net'']\<rparr>"
  let ?sh = "mkShard ''shard01'' ''shard01/prod-x-shard-00-00.example.net:27017,prod-x-shard-00-01.example.net:27017'' :: unit Shard"
  have a: "Hosts ?cs = [''prod-x-shard-00-00-pri.example.net'']" by simp
  have b: "GetAllServerURIs [?sh] ?cs
     = Inr ([''mongodb://prod-x-shard-00-00-pri.example.net:27017/?replicaSet=shard01&'',
             ''mongodb://prod-x-shard-00-01.example.net:27017/?replicaSet=shard01&''], None)"
    by code_simp
  have c: "?sh \<in> set [?sh]" by simp
  have d: "''prod-x-shard-00-00.example.net:27017'' \<in> set (shardMembers ?sh)"
    by code_simp
  note r = seed_designation_restored [OF a b c d, THEN conjunct1]
  show ?thesis
    by (rule conjI [OF a conjI [OF b conjI [OF d r]]])
qed

text \<open>
  C8 (as the code has it). Called with the direct-connect flag set, the result of
  \<^verbatim>\<open>GetQueryParams\<close> does not depend on the read-preference fields of the connection
  string, and neither \<^verbatim>\<open>&readPreference=\<close> nor \<^verbatim>\<open>&readPreferenceTags=\<close> occurs in
  it, provided that the CA file, the certificate key file and the named write concern of
  the configuration hold no \<^verbatim>\<open>&\<close>: these three values go into the result as they
  are, and one that holds a parameter brings it into the result.
\<close>

theorem direct_mode_no_read_preference:
  "GetQueryParams (connString\<lparr>ReadPreference := rp, ReadPreferenceTagSets := ts\<rparr>) True
     = GetQueryParams connString True \<and>
   (CHR ''&'' \<notin> set (SSLCaFile connString) \<and>
    CHR ''&'' \<notin> set (SSLClientCertificateKeyFile connString) \<and>
    CHR ''&'' \<notin> set (WString connString) \<longrightarrow>
      \<not> Contains (GetQueryParams connString True) ''&readPreference='' \<and>
      \<not> Contains (GetQueryParams connString True) ''&readPreferenceTags='')"
proof -
  have sub: "\<not> Contains (GetQueryParams connString True) ''&readPreference='' \<and>
      \<not> Contains (GetQueryParams connString True) ''&readPreferenceTags=''"
    if "CHR ''&'' \<notin> set (SSLCaFile connString)"
      "CHR ''&'' \<notin> set (SSLClientCertificateKeyFile connString)"
      "CHR ''&'' \<notin> set (WString connString)"
  proof -
    have g: "ampGuard (GetQueryParams connString True)"
      using that by (rule ampGuard_GetQueryParams_direct)
    have "prefix ''&rea'' ''&readPreference=''" "prefix ''&rea'' ''&readPreferenceTags=''"
      by simp_all
    with g show ?thesis by (simp only: ampGuard_not_Contains simp_thms)
  qed
  from sub GetQueryParams_direct [where connString = connString and rp = rp and ts = ts]
  show ?thesis by blast
qed

theorem direct_mode_no_read_preference_witness:
  "(CHR ''&'' \<notin> set (SSLCaFile
       (zeroConnString\<lparr>SSLSet := True, SSLCaFileSet := True, SSLCaFile := ''/etc/ssl/ca.pem'',
          ReadPreference := ''secondary'', ReadPreferenceTagSets := [[(''dc'', ''east'')]],
          WString := ''majority''\<rparr>)) \<and>
    CHR ''&'' \<notin> set (SSLClientCertificateKeyFile
       (zeroConnString\<lparr>SSLSet := True, SSLCaFileSet := True, SSLCaFile := ''/etc/ssl/ca.pem'',
          ReadPreference := ''secondary'', ReadPreferenceTagSets := [[(''dc'', ''east'')]],
          WString := ''majority''\<rparr>)) \<and>
    CHR ''&'' \<notin> set (WString
       (zeroConnString\<lparr>SSLSet := True, SSLCaFileSet := True, SSLCaFile := ''/etc/ssl/ca.pem'',
          ReadPreference := ''secondary'', ReadPreferenceTagSets := [[(''dc'', ''east'')]],
          WString := ''majority''\<rparr>))) \<and>
   GetQueryParams
       (zeroConnString\<lparr>SSLSet := True, SSLCaFileSet := True, SSLCaFile := ''/etc/ssl/ca.pem'',
          ReadPreference := ''secondary'', ReadPreferenceTagSets := [[(''dc'', ''east'')]],
          WString := ''majority''\<rparr>) True
     = ''&tls=true&tlsCAFile=/etc/ssl/ca.pem&w=majority'' \<and>
   (\<not> Contains (GetQueryParams
       (zeroConnString\<lparr>SSLSet := True, SSLCaFileSet := True, SSLCaFile := ''/etc/ssl/ca.pem'',
          ReadPreference := ''secondary'', ReadPreferenceTagSets := [[(''dc'', ''east'')]],
          WString := ''majority''\<rparr>) True) ''&readPreference='' \<and>
    \<not> Contains (GetQueryParams
       (zeroConnString\<lparr>SSLSet := True, SSLCaFileSet := True, SSLCaFile := ''/etc/ssl/ca.pem'',
          ReadPreference := ''secondary'', ReadPreferenceTagSets := [[(''dc'', ''east'')]],
          WString := ''majority''\<rparr>) True) ''&readPreferenceTags='')"
proof -
  let ?cs = "zeroConnString\<lparr>SSLSet := True, SSLCaFileSet := True, SSLCaFile := ''/etc/ssl/ca.pem'',
          ReadPreference := ''secondary'', ReadPreferenceTagSets := [[(''dc'', ''east'')]],
          WString := ''majority''\<rparr>"
  have a: "CHR ''&'' \<notin> set (SSLCaFile ?cs) \<and>
    CHR ''&'' \<notin> set (SSLClientCertificateKeyFile ?cs) \<and>
    CHR ''&'' \<notin> set (WString ?cs)"
    by (simp add: zeroConnString_def)
  have b: "GetQueryParams ?cs True = ''&tls=true&tlsCAFile=/etc/ssl/ca.pem&w=majority''"
    by code_simp
  note r = direct_mode_no_read_preference [where connString = ?cs, THEN conjunct2, THEN mp, OF a]
  show ?thesis
    by (rule conjI [OF a conjI [OF b r]])
qed

theorem value_brings_read_preference:
  "GetQueryParams
       (zeroConnString\<lparr>SSLCaFileSet := True,
          SSLCaFile := ''ca.pem&readPreference=secondary&readPreferenceTags=dc:east''\<rparr>) True
     = ''&tlsCAFile=ca.pem&readPreference=secondary&readPreferenceTags=dc:east'' \<and>
   Contains ''&tlsCAFile=ca.pem&readPreference=secondary&readPreferenceTags=dc:east''
     ''&readPreference='' \<and>
   Contains ''&tlsCAFile=ca.pem&readPreference=secondary&readPreferenceTags=dc:east''
     ''&readPreferenceTags=''"
  by code_simp

text \<open>
  C9. For the empty shard list and every connection string, \<^verbatim>\<open>GetAllShardURIs\<close> and
  \<^verbatim>\<open>GetAllServerURIs\<close> both return the empty list and a nil error.
\<close>

theorem empty_shard_list:
  "GetAllShardURIs [] connString = Inr ([], None) \<and>
   GetAllServerURIs [] connString = Inr ([], None)"
  by (simp add: GetAllShardURIs_def GetAllServerURIs_def)

text \<open>
  C10. Whenever \<^verbatim>\<open>GetAllShardURIs\<close> or \<^verbatim>\<open>GetAllServerURIs\<close> returns (that is, does
  not panic), the error it returns is nil, for every shard list and connection string.
\<close>

theorem error_always_nil:
  "(GetAllShardURIs shards connString = Inr (list, err) \<longrightarrow> err = None) \<and>
   (GetAllServerURIs shards connString = Inr (list', err') \<longrightarrow> err' = None)"
  by (auto simp: GetAllShardURIs_def GetAllServerURIs_def Let_def split: sum.splits)

theorem error_always_nil_witness:
  "(GetAllShardURIs [mkShard ''shard01'' ''shard01/h1:27018,h2:27018'']
        (zeroConnString\<lparr>Database := ''admin''\<rparr>)
      = Inr ([''mongodb://h1:27018,h2:27018/admin?replicaSet=shard01''], None) \<and>
    GetAllServerURIs [mkShard ''shard01'' ''shard01/h1:27018,h2:27018'']
        (zeroConnString\<lparr>Database := ''admin''\<rparr>)
      = Inr ([''mongodb://h1:27018/?replicaSet=shard01&'',
              ''mongodb://h2:27018/?replicaSet=shard01&''], None)) \<and>
   ((None :: go_error option) = None \<and> (None :: go_error option) = None)"
proof -
  have a: "GetAllShardURIs [mkShard ''shard01'' ''shard01/h1:27018,h2:27018'']
        (zeroConnString\<lparr>Database := ''admin''\<rparr>)
      = Inr ([''mongodb://h1:27018,h2:27018/admin?replicaSet=shard01''], None)"
    by code_simp
  have b: "GetAllServerURIs [mkShard ''shard01'' ''shard01/h1:27018,h2:27018'']
        (zeroConnString\<lparr>Database := ''admin''\<rparr>)
      = Inr ([''mongodb://h1:27018/?replicaSet=shard01&'',
              ''mongodb://h2:27018/?replicaSet=shard01&''], None)"
    by code_simp
  note nil = error_always_nil [where err = None and err' = None]
  have c: "(None :: go_error option) = None"
    by (rule nil [THEN conjunct1, THEN mp, OF a])
  have d: "(None :: go_error option) = None"
    by (rule nil [THEN conjunct2, THEN mp, OF b])
  show ?thesis
    by (rule conjI [OF conjI [OF a b] conjI [OF c d]])
qed

end
